theory Spec2Isabelle
  imports Main
begin

section \<open>Python strings\<close>

text \<open>
  A Python \<^verbatim>\<open>str\<close> is a sequence of code points. It is modelled by \<^typ>\<open>string\<close>, whose
  characters stand for the code points U+0000 to U+00FF, one character per code point.
  The library predicates below are the ones of CPython restricted to that range.
\<close>

definition isalnum :: "char \<Rightarrow> bool" where
  \<comment> \<open>\<^verbatim>\<open>c.isalnum()\<close>: letters, decimal digits and numeric characters of Unicode.\<close>
  "isalnum c = (let n = (of_char c :: nat) in
      (48 \<le> n \<and> n \<le> 57) \<or> (65 \<le> n \<and> n \<le> 90) \<or> (97 \<le> n \<and> n \<le> 122) \<or>
      n \<in> {170, 178, 179, 181, 185, 186, 188, 189, 190} \<or>
      (192 \<le> n \<and> n \<le> 214) \<or> (216 \<le> n \<and> n \<le> 246) \<or> (248 \<le> n \<and> n \<le> 255))"

definition isspace :: "char \<Rightarrow> bool" where
  \<comment> \<open>the characters that \<^verbatim>\<open>strip()\<close> and \<^verbatim>\<open>rstrip()\<close> remove when called with no argument\<close>
  "isspace c = (let n = (of_char c :: nat) in
      (9 \<le> n \<and> n \<le> 13) \<or> (28 \<le> n \<and> n \<le> 32) \<or> n = 133 \<or> n = 160)"

definition lower_char :: "char \<Rightarrow> char" where
  "lower_char c = (let n = (of_char c :: nat) in
      if (65 \<le> n \<and> n \<le> 90) \<or> (192 \<le> n \<and> n \<le> 222 \<and> n \<noteq> 215)
      then char_of (n + 32) else c)"

definition lower :: "string \<Rightarrow> string" where
  "lower s = map lower_char s"

definition lstrip :: "string \<Rightarrow> string" where
  "lstrip s = dropWhile isspace s"

definition rstrip :: "string \<Rightarrow> string" where
  "rstrip s = rev (dropWhile isspace (rev s))"

definition strip :: "string \<Rightarrow> string" where
  "strip s = rstrip (lstrip s)"

definition strip_chars :: "string \<Rightarrow> string \<Rightarrow> string" where
  \<comment> \<open>\<^verbatim>\<open>s.strip(chars)\<close>\<close>
  "strip_chars chars s =
     rev (dropWhile (\<lambda>c. c \<in> set chars) (rev (dropWhile (\<lambda>c. c \<in> set chars) s)))"

definition startswith :: "string \<Rightarrow> string \<Rightarrow> bool" where
  "startswith s p = (take (length p) s = p)"

definition endswith :: "string \<Rightarrow> string \<Rightarrow> bool" where
  "endswith s p = (length p \<le> length s \<and> drop (length s - length p) s = p)"

fun contains :: "string \<Rightarrow> string \<Rightarrow> bool" where
  \<comment> \<open>\<^verbatim>\<open>sub in s\<close>\<close>
  "contains sub [] = (sub = [])"
| "contains sub (c # cs) = (startswith (c # cs) sub \<or> contains sub cs)"

fun split_aux :: "string \<Rightarrow> nat \<Rightarrow> string \<Rightarrow> string \<Rightarrow> string list" where
  \<comment> \<open>scan from the left; \<open>skip\<close> counts the characters of a matched separator still to pass,
      \<open>cur\<close> is the current piece, reversed\<close>
  "split_aux sep skip cur [] = [rev cur]"
| "split_aux sep (Suc k) cur (c # cs) = split_aux sep k cur cs"
| "split_aux sep 0 cur (c # cs) =
     (if startswith (c # cs) sep then rev cur # split_aux sep (length sep - 1) [] cs
      else split_aux sep 0 (c # cur) cs)"

definition split :: "string \<Rightarrow> string \<Rightarrow> string list" where
  \<comment> \<open>\<^verbatim>\<open>s.split(sep)\<close>. Every separator in the program is a non-empty literal; on an empty
      one Python raises ValueError, which no call of the program can reach.\<close>
  "split s sep = split_aux sep 0 [] s"

fun str_nat :: "nat \<Rightarrow> string" where
  \<comment> \<open>\<^verbatim>\<open>str(n)\<close> for \<open>n \<ge> 0\<close>\<close>
  "str_nat n = (if n < 10 then [char_of (48 + n)]
                else str_nat (n div 10) @ [char_of (48 + n mod 10)])"

declare str_nat.simps [simp del]


section \<open>\<^verbatim>\<open>os.path\<close> (POSIX)\<close>

fun rfind_char :: "char \<Rightarrow> string \<Rightarrow> int" where
  \<comment> \<open>\<^verbatim>\<open>s.rfind(c)\<close>: the highest index of \<open>c\<close>, or \<open>-1\<close>\<close>
  "rfind_char c [] = -1"
| "rfind_char c (x # xs) =
     (let r = rfind_char c xs in if r \<ge> 0 then r + 1 else if x = c then 0 else -1)"

definition splitext :: "string \<Rightarrow> string \<times> string" where
  \<comment> \<open>\<^verbatim>\<open>os.path.splitext\<close>: the extension starts at the last dot of the last component,
      unless that component consists of dots up to there\<close>
  "splitext p =
     (let sepIndex = rfind_char (CHR ''/'') p;
          extSepIndex = rfind_char (CHR ''.'') p
      in if extSepIndex > sepIndex \<and>
            (\<exists>c \<in> set (drop (nat (sepIndex + 1)) (take (nat extSepIndex) p)). c \<noteq> CHR ''.'')
         then (take (nat extSepIndex) p, drop (nat extSepIndex) p)
         else (p, []))"

definition os_path_join :: "string \<Rightarrow> string \<Rightarrow> string" where
  \<comment> \<open>\<^verbatim>\<open>os.path.join(a, b)\<close>\<close>
  "os_path_join a b =
     (if startswith b ''/'' then b
      else if a = [] \<or> endswith a ''/'' then a @ b
      else a @ ''/'' @ b)"


section \<open>Avoiding a name collision (\<^verbatim>\<open>download_image\<close>, lines 93 to 98)\<close>

definition candidate :: "string \<Rightarrow> string \<Rightarrow> nat \<Rightarrow> string" where
  \<comment> \<open>\<^verbatim>\<open>f"{base_name}_{counter}{extension}"\<close>\<close>
  "candidate base_name extension counter = base_name @ ''_'' @ str_nat counter @ extension"

partial_function (option)
  unique_loop :: "(string \<Rightarrow> bool) \<Rightarrow> string \<Rightarrow> string \<Rightarrow> string \<Rightarrow> nat \<Rightarrow> string option"
where
  \<comment> \<open>\<^verbatim>\<open>while os.path.exists(save_path): ...\<close>; \<open>None\<close> is a loop that never ends\<close>
  "unique_loop exists base_name extension save_path counter =
     (if exists save_path
      then unique_loop exists base_name extension
             (candidate base_name extension counter) (counter + 1)
      else Some save_path)"

definition unique_save_path :: "(string \<Rightarrow> bool) \<Rightarrow> string \<Rightarrow> string option" where
  "unique_save_path exists save_path =
     (let counter = 1;
          (base_name, extension) = splitext save_path
      in unique_loop exists base_name extension save_path counter)"


section \<open>Exceptions\<close>

text \<open>
  The exception classes that the program names or that its library calls raise, with
  their base classes: the classes of \<^verbatim>\<open>requests.exceptions\<close> derive from
  \<^verbatim>\<open>RequestException\<close>, which derives from \<^verbatim>\<open>IOError\<close>; \<^verbatim>\<open>IOError\<close> is another name of
  \<^verbatim>\<open>OSError\<close>.
\<close>

datatype exc_class =
    BaseException | Exception | KeyboardInterrupt
  | OSError | ValueError | EOFError
  | RequestException | ConnectionError | HTTPError | Timeout | TooManyRedirects

fun mro :: "exc_class \<Rightarrow> exc_class list" where
  \<comment> \<open>a class followed by its base classes\<close>
  "mro BaseException = [BaseException]"
| "mro Exception = [Exception, BaseException]"
| "mro KeyboardInterrupt = [KeyboardInterrupt, BaseException]"
| "mro OSError = [OSError, Exception, BaseException]"
| "mro ValueError = [ValueError, Exception, BaseException]"
| "mro EOFError = [EOFError, Exception, BaseException]"
| "mro RequestException = [RequestException, OSError, Exception, BaseException]"
| "mro ConnectionError = [ConnectionError, RequestException, OSError, Exception, BaseException]"
| "mro HTTPError = [HTTPError, RequestException, OSError, Exception, BaseException]"
| "mro Timeout = [Timeout, RequestException, OSError, Exception, BaseException]"
| "mro TooManyRedirects =
     [TooManyRedirects, RequestException, OSError, Exception, BaseException]"

datatype exc = Exc (exc_type: exc_class) (exc_str: string)
  \<comment> \<open>an exception object: its class and \<^verbatim>\<open>str(e)\<close>\<close>

definition isinstance :: "exc \<Rightarrow> exc_class \<Rightarrow> bool" where
  "isinstance e c = (c \<in> set (mro (exc_type e)))"

datatype 'a outcome =
    Return 'a
  | Raise exc
  | Blocked  \<comment> \<open>waiting at \<^verbatim>\<open>input()\<close> with nothing typed yet\<close>
  | Diverge  \<comment> \<open>a loop that never ends\<close>


section \<open>What the program prints\<close>

text \<open>
  One constructor for each \<^verbatim>\<open>print\<close> statement and each \<^verbatim>\<open>input\<close> prompt of the program,
  with the values that its text interpolates. \<open>text_of\<close> is the text itself, without the
  pictograph that some messages begin with (the pictographs are beyond U+00FF).
\<close>

datatype message =
    Directory_ready string | Error_creating_directory string
  | Connecting_to string | Warning_not_image | Prompt_continue | Download_cancelled
  | Downloading string | Successfully_saved string nat | Location string
  | Network_error string | HTTP_error string | Request_timed_out | Too_many_redirects
  | File_system_error string | Unexpected_error string
  | Rule50 | Title | Community | Respect | Sharing | Practicality
  | Separator | Prompt_URL | Thank_you | Please_enter_valid_URL | URL_must_start_with
  | Goodbye | Unexpected_error_in_main_loop string

fun text_of :: "message \<Rightarrow> string" where
  "text_of (Directory_ready d) = ''Directory '' @ [CHR 0x27] @ d @ [CHR 0x27] @ '' is ready''"
| "text_of (Error_creating_directory e) = ''Error creating directory: '' @ e"
| "text_of (Connecting_to host) = ''Connecting to '' @ host @ ''...''"
| "text_of Warning_not_image =
     ''Warning: The URL doesn'' @ [CHR 0x27] @ ''t seem to point to an image file''"
| "text_of Prompt_continue = ''Do you want to continue anyway? (y/N): ''"
| "text_of Download_cancelled = ''Download cancelled.''"
| "text_of (Downloading filename) = ''Downloading: '' @ filename"
| "text_of (Successfully_saved filename file_size) =
     ''Successfully saved: '' @ filename @ '' ('' @ str_nat file_size @ '' bytes)''"
| "text_of (Location save_path) = ''Location: '' @ save_path"
| "text_of (Network_error e) = ''Network error: '' @ e"
| "text_of (HTTP_error e) = ''HTTP error: '' @ e"
| "text_of Request_timed_out = ''Request timed out''"
| "text_of Too_many_redirects = ''Too many redirects''"
| "text_of (File_system_error e) = ''File system error: '' @ e"
| "text_of (Unexpected_error e) = ''Unexpected error: '' @ e"
| "text_of Rule50 = replicate 50 (CHR ''='')"
| "text_of Title = ''Image Fetcher - Ubuntu Principles Edition''"
| "text_of Community = ''Community: Connecting to the wider web''"
| "text_of Respect = ''Respect:   Graceful error handling''"
| "text_of Sharing = ''Sharing:   Organized image collection''"
| "text_of Practicality = ''Practicality: Real-world utility''"
| "text_of Separator = [CHR 0x0A] @ replicate 30 (CHR ''-'')"
| "text_of Prompt_URL = ''Enter image URL (or '' @ [CHR 0x27] @ ''quit'' @ [CHR 0x27] @ '' to exit): ''"
| "text_of Thank_you = ''Thank you for using Image Fetcher!''"
| "text_of Please_enter_valid_URL = ''Please enter a valid URL''"
| "text_of URL_must_start_with = ''URL must start with http:// or https://''"
| "text_of Goodbye = [CHR 0x0A, CHR 0x0A] @ ''Operation cancelled by user. Goodbye!''"
| "text_of (Unexpected_error_in_main_loop e) = ''Unexpected error in main loop: '' @ e"


section \<open>The world outside the program\<close>

record datetime =
  year :: nat
  month :: nat
  day :: nat
  hour :: nat
  minute :: nat
  second :: nat

definition valid_datetime :: "datetime \<Rightarrow> bool" where
  \<comment> \<open>the ranges of the fields of a \<^verbatim>\<open>datetime\<close> object\<close>
  "valid_datetime d =
     (1 \<le> year d \<and> year d \<le> 9999 \<and> 1 \<le> month d \<and> month d \<le> 12 \<and>
      1 \<le> day d \<and> day d \<le> 31 \<and> hour d < 24 \<and> minute d < 60 \<and> second d < 60)"

definition two_digits :: "nat \<Rightarrow> string" where
  \<comment> \<open>\<^verbatim>\<open>%m\<close>, \<^verbatim>\<open>%d\<close>, \<^verbatim>\<open>%H\<close>, \<^verbatim>\<open>%M\<close>, \<^verbatim>\<open>%S\<close>: padded with a zero to two digits\<close>
  "two_digits n = (if n < 10 then ''0'' @ str_nat n else str_nat n)"

definition strftime :: "datetime \<Rightarrow> string" where
  \<comment> \<open>\<^verbatim>\<open>strftime("%Y%m%d_%H%M%S")\<close>; \<^verbatim>\<open>%Y\<close> is the year in decimal\<close>
  "strftime d =
     str_nat (year d) @ two_digits (month d) @ two_digits (day d) @ ''_'' @
     two_digits (hour d) @ two_digits (minute d) @ two_digits (second d)"

record url_parts =
  \<comment> \<open>the fields of the result of \<^verbatim>\<open>urlparse\<close> that the program reads\<close>
  netloc :: string
  path :: string

record response =
  status_code :: nat
  reason :: string
  headers :: "string \<rightharpoonup> string"  \<comment> \<open>keyed by the header name in lower case\<close>
  body :: "(exc + string) list"
    \<comment> \<open>what \<^verbatim>\<open>iter_content\<close> yields: a chunk, or an exception raised while reading\<close>

text \<open>
  The library calls whose results the program does not determine are parameters:
  \<^verbatim>\<open>urlparse\<close> (which raises ValueError on some strings), \<^verbatim>\<open>unquote\<close>,
  \<^verbatim>\<open>mimetypes.guess_extension\<close>, \<^verbatim>\<open>datetime.now\<close>, \<^verbatim>\<open>requests.get\<close>, \<^verbatim>\<open>os.makedirs\<close> and
  \<^verbatim>\<open>open\<close> (for the last two \<open>None\<close> is success, \<open>Some e\<close> the exception raised).
\<close>

record env =
  urlparse :: "string \<Rightarrow> exc + url_parts"
  unquote :: "string \<Rightarrow> string"
  guess_extension :: "string \<Rightarrow> string option"
  now :: datetime
  requests_get :: "string \<Rightarrow> exc + response"
  makedirs :: "string \<Rightarrow> exc option"
  open_wb :: "string \<Rightarrow> exc option"

datatype input_event =
    Line string  \<comment> \<open>a line typed at the prompt\<close>
  | EOF  \<comment> \<open>end of input: \<^verbatim>\<open>input()\<close> raises EOFError\<close>
  | Interrupt  \<comment> \<open>\<^verbatim>\<open>input()\<close> raises KeyboardInterrupt\<close>

record world =
  stdin :: "input_event list"  \<comment> \<open>what the user will type, in order\<close>
  stdout :: "message list"  \<comment> \<open>what has been printed, in order\<close>
  fs :: "string \<rightharpoonup> string"  \<comment> \<open>the paths that exist, each with its content\<close>
  made_dirs :: "string list"  \<comment> \<open>the directories that \<^verbatim>\<open>os.makedirs\<close> was asked for\<close>
  http_requests :: "string list"  \<comment> \<open>the URLs that \<^verbatim>\<open>requests.get\<close> was called on\<close>

definition print :: "message \<Rightarrow> world \<Rightarrow> world" where
  "print m w = w\<lparr>stdout := stdout w @ [m]\<rparr>"

definition os_path_exists :: "world \<Rightarrow> string \<Rightarrow> bool" where
  "os_path_exists w p = (fs w p \<noteq> None)"

definition py_input :: "message \<Rightarrow> world \<Rightarrow> world \<times> string outcome" where
  \<comment> \<open>\<^verbatim>\<open>input(prompt)\<close>\<close>
  "py_input prompt w =
     (let w = print prompt w
      in case stdin w of
           [] \<Rightarrow> (w, Blocked)
         | Line s # rest \<Rightarrow> (w\<lparr>stdin := rest\<rparr>, Return s)
         | EOF # rest \<Rightarrow> (w\<lparr>stdin := rest\<rparr>, Raise (Exc EOFError ''EOF when reading a line''))
         | Interrupt # rest \<Rightarrow> (w\<lparr>stdin := rest\<rparr>, Raise (Exc KeyboardInterrupt [])))"

definition headers_get :: "response \<Rightarrow> string \<Rightarrow> string \<Rightarrow> string" where
  \<comment> \<open>\<^verbatim>\<open>response.headers.get(name, default)\<close>; the lookup ignores case\<close>
  "headers_get r name dflt =
     (case headers r (lower name) of None \<Rightarrow> dflt | Some v \<Rightarrow> v)"

definition raise_for_status :: "string \<Rightarrow> response \<Rightarrow> exc option" where
  \<comment> \<open>\<^verbatim>\<open>response.raise_for_status()\<close>: HTTPError on a status from 400 to 599\<close>
  "raise_for_status url r =
     (if 400 \<le> status_code r \<and> status_code r < 500
      then Some (Exc HTTPError
             (str_nat (status_code r) @ '' Client Error: '' @ reason r @ '' for url: '' @ url))
      else if 500 \<le> status_code r \<and> status_code r < 600
      then Some (Exc HTTPError
             (str_nat (status_code r) @ '' Server Error: '' @ reason r @ '' for url: '' @ url))
      else None)"


section \<open>\<^verbatim>\<open>create_directory\<close>\<close>

definition create_directory :: "env \<Rightarrow> string \<Rightarrow> world \<Rightarrow> world \<times> bool outcome" where
  "create_directory env directory_name w =
     (case makedirs env directory_name of
        None \<Rightarrow>
          (let w = w\<lparr>made_dirs := made_dirs w @ [directory_name]\<rparr>;
               w = print (Directory_ready directory_name) w
           in (w, Return True))
      | Some e \<Rightarrow>
          if isinstance e OSError
          then (print (Error_creating_directory (exc_str e)) w, Return False)
          else (w, Raise e))"


section \<open>\<^verbatim>\<open>extract_filename\<close>\<close>

definition generated_name :: "env \<Rightarrow> string" where
  \<comment> \<open>lines 37 and 38\<close>
  "generated_name env = (let timestamp = strftime (now env) in ''image_'' @ timestamp @ ''.jpg'')"

definition extract_filename :: "env \<Rightarrow> string \<Rightarrow> exc + string" where
  "extract_filename env url =
     (case urlparse env url of
        Inl e \<Rightarrow> Inl e
      | Inr parsed_url \<Rightarrow>
          (let path = unquote env (path parsed_url)
           in if path \<noteq> [] \<and> contains ''/'' path
              then (let filename = last (split path ''/'')
                    in if filename \<noteq> [] \<and> contains ''.'' filename
                       then Inr filename
                       else Inr (generated_name env))
              else Inr (generated_name env)))"


section \<open>\<^verbatim>\<open>download_image\<close>\<close>

definition sanitize :: "string \<Rightarrow> string" where
  \<comment> \<open>line 86\<close>
  "sanitize filename =
     rstrip (filter (\<lambda>c. isalnum c \<or> c \<in> set [CHR '' '', CHR ''-'', CHR ''_'', CHR ''.'']) filename)"

definition candidate_filename :: "env \<Rightarrow> string \<Rightarrow> response \<Rightarrow> string \<Rightarrow> exc + string" where
  \<comment> \<open>lines 70 to 83: the name before it is made safe\<close>
  "candidate_filename env url response content_type =
     (let content_disposition = headers_get response ''content-disposition'' []
      in if contains ''filename='' content_disposition
         then Inr (strip_chars [CHR 0x22, CHR 0x27]
                     (last (split content_disposition ''filename='')))
         else case extract_filename env url of
                Inl e \<Rightarrow> Inl e
              | Inr filename \<Rightarrow>
                  (case guess_extension env (hd (split content_type '';'')) of
                     None \<Rightarrow> Inr filename
                   | Some ext \<Rightarrow>
                       if ext \<noteq> [] \<and> \<not> endswith filename ext
                       then (if contains ''.'' filename
                             then Inr (hd (split filename ''.'') @ ext)
                             else Inr (filename @ ext))
                       else Inr filename))"

definition resolve_filename :: "env \<Rightarrow> string \<Rightarrow> response \<Rightarrow> string \<Rightarrow> exc + string" where
  \<comment> \<open>lines 69 to 88: the name under which the response is saved\<close>
  "resolve_filename env url response content_type =
     (case candidate_filename env url response content_type of
        Inl e \<Rightarrow> Inl e
      | Inr filename \<Rightarrow>
          (let filename = sanitize filename
           in if filename = [] then Inr (''image_'' @ strftime (now env))
              else Inr filename))"

fun write_chunks :: "(exc + string) list \<Rightarrow> string \<Rightarrow> string \<times> exc option" where
  \<comment> \<open>lines 103 to 105: the bytes written, and the exception that stopped the loop, if any\<close>
  "write_chunks [] written = (written, None)"
| "write_chunks (Inl e # rest) written = (written, Some e)"
| "write_chunks (Inr chunk # rest) written =
     write_chunks rest (if chunk \<noteq> [] then written @ chunk else written)"

definition save_response ::
  "env \<Rightarrow> string \<Rightarrow> string \<Rightarrow> response \<Rightarrow> world \<Rightarrow> world \<times> bool outcome" where
  \<comment> \<open>lines 90 to 110\<close>
  "save_response env save_directory filename response w =
     (let save_path = os_path_join save_directory filename
      in case unique_save_path (os_path_exists w) save_path of
           None \<Rightarrow> (w, Diverge)
         | Some save_path \<Rightarrow>
             (let w = print (Downloading filename) w
              in case open_wb env save_path of
                   Some e \<Rightarrow> (w, Raise e)
                 | None \<Rightarrow>
                     (let (written, stopped) = write_chunks (body response) [];
                          w = w\<lparr>fs := (fs w)(save_path \<mapsto> written)\<rparr>
                      in case stopped of
                           Some e \<Rightarrow> (w, Raise e)
                         | None \<Rightarrow>
                             (let file_size = length written;
                                  w = print (Successfully_saved filename file_size) w;
                                  w = print (Location save_path) w
                              in (w, Return True)))))"

definition resolve_and_save ::
  "env \<Rightarrow> string \<Rightarrow> string \<Rightarrow> response \<Rightarrow> string \<Rightarrow> world \<Rightarrow> world \<times> bool outcome" where
  \<comment> \<open>lines 69 to 110\<close>
  "resolve_and_save env url save_directory response content_type w =
     (case resolve_filename env url response content_type of
        Inl e \<Rightarrow> (w, Raise e)
      | Inr filename \<Rightarrow> save_response env save_directory filename response w)"

definition download_try :: "env \<Rightarrow> string \<Rightarrow> string \<Rightarrow> world \<Rightarrow> world \<times> bool outcome" where
  \<comment> \<open>the body of the \<^verbatim>\<open>try\<close> statement, lines 48 to 110\<close>
  "download_try env url save_directory w =
     (case urlparse env url of
        Inl e \<Rightarrow> (w, Raise e)
      | Inr parsed \<Rightarrow>
          (let w = print (Connecting_to (netloc parsed)) w;
               w = w\<lparr>http_requests := http_requests w @ [url]\<rparr>
           in case requests_get env url of
                Inl e \<Rightarrow> (w, Raise e)
              | Inr response \<Rightarrow>
                  (case raise_for_status url response of
                     Some e \<Rightarrow> (w, Raise e)
                   | None \<Rightarrow>
                       (let content_type = headers_get response ''content-type'' []
                        in if \<not> startswith content_type ''image/''
                           then (let w = print Warning_not_image w
                                 in case py_input Prompt_continue w of
                                      (w, Return answer) \<Rightarrow>
                                        (let confirm = lower answer
                                         in if confirm \<noteq> ''y''
                                            then (print Download_cancelled w, Return False)
                                            else resolve_and_save env url save_directory
                                                   response content_type w)
                                    | (w, Raise e) \<Rightarrow> (w, Raise e)
                                    | (w, Blocked) \<Rightarrow> (w, Blocked)
                                    | (w, Diverge) \<Rightarrow> (w, Diverge))
                           else resolve_and_save env url save_directory
                                  response content_type w))))"

definition except_clauses :: "(exc_class \<times> (exc \<Rightarrow> message)) list" where
  \<comment> \<open>lines 112 to 123, in the order of the source\<close>
  "except_clauses =
     [(RequestException, \<lambda>e. Network_error (exc_str e)),
      (HTTPError, \<lambda>e. HTTP_error (exc_str e)),
      (Timeout, \<lambda>e. Request_timed_out),
      (TooManyRedirects, \<lambda>e. Too_many_redirects),
      (OSError, \<lambda>e. File_system_error (exc_str e)),
      (Exception, \<lambda>e. Unexpected_error (exc_str e))]"

fun first_match :: "(exc_class \<times> (exc \<Rightarrow> message)) list \<Rightarrow> exc \<Rightarrow> message option" where
  \<comment> \<open>the first \<^verbatim>\<open>except\<close> clause whose class the exception is an instance of\<close>
  "first_match [] e = None"
| "first_match ((c, report) # clauses) e =
     (if isinstance e c then Some (report e) else first_match clauses e)"

definition handle_exceptions :: "world \<times> bool outcome \<Rightarrow> world \<times> bool outcome" where
  \<comment> \<open>lines 112 to 125: an exception that a clause catches is reported and the function
      returns False; any other exception leaves the function\<close>
  "handle_exceptions r =
     (case r of
        (w, Raise e) \<Rightarrow>
          (case first_match except_clauses e of
             Some m \<Rightarrow> (print m w, Return False)
           | None \<Rightarrow> (w, Raise e))
      | (w, Return b) \<Rightarrow> (w, Return b)
      | (w, Blocked) \<Rightarrow> (w, Blocked)
      | (w, Diverge) \<Rightarrow> (w, Diverge))"

definition download_image :: "env \<Rightarrow> string \<Rightarrow> string \<Rightarrow> world \<Rightarrow> world \<times> bool outcome" where
  "download_image env url save_directory w =
     handle_exceptions (download_try env url save_directory w)"


section \<open>\<^verbatim>\<open>main\<close>\<close>

lemma stdin_print: "stdin (print m w) = stdin w"
  by (simp add: print_def)

lemma py_input_consumes:
  "py_input prompt w = (w', r) \<Longrightarrow> r \<noteq> Blocked \<Longrightarrow> length (stdin w') < length (stdin w)"
  by (auto simp: py_input_def Let_def stdin_print split: list.splits input_event.splits)

lemma py_input_stdin_le: "py_input prompt w = (w', r) \<Longrightarrow> length (stdin w') \<le> length (stdin w)"
  by (auto simp: py_input_def Let_def stdin_print split: list.splits input_event.splits)

lemma save_response_stdin:
  "save_response env d f r w = (w', res) \<Longrightarrow> stdin w' = stdin w"
  by (auto simp: save_response_def Let_def stdin_print
           split: option.splits prod.splits)

lemma resolve_and_save_stdin:
  "resolve_and_save env url d r ct w = (w', res) \<Longrightarrow> stdin w' = stdin w"
  by (auto simp: resolve_and_save_def split: sum.splits dest: save_response_stdin)

lemma download_try_stdin_le:
  "download_try env url d w = (w', res) \<Longrightarrow> length (stdin w') \<le> length (stdin w)"
  by (auto simp: download_try_def Let_def stdin_print
           split: sum.splits option.splits if_splits prod.splits outcome.splits
           dest!: py_input_stdin_le resolve_and_save_stdin)

lemma download_image_stdin_le:
  "download_image env url d w = (w', res) \<Longrightarrow> length (stdin w') \<le> length (stdin w)"
  by (auto simp: download_image_def handle_exceptions_def stdin_print
           split: prod.splits outcome.splits option.splits
           dest!: download_try_stdin_le)

function main_loop :: "env \<Rightarrow> string \<Rightarrow> world \<Rightarrow> world \<times> unit outcome" where
  \<comment> \<open>the \<^verbatim>\<open>while True\<close> loop, lines 143 to 169\<close>
  "main_loop env directory_name w =
     (let w = print Separator w
      in case py_input Prompt_URL w of
           (w, Return line) \<Rightarrow>
             (let url = strip line
              in if lower url \<in> set [''quit'', ''exit'', ''q'']
                 then (print Thank_you w, Return ())
                 else if url = []
                 then main_loop env directory_name (print Please_enter_valid_URL w)
                 else if \<not> (startswith url ''http://'' \<or> startswith url ''https://'')
                 then main_loop env directory_name (print URL_must_start_with w)
                 else (case download_image env url directory_name w of
                         (w, Return r) \<Rightarrow> main_loop env directory_name w
                       | (w, Raise e) \<Rightarrow>
                           if isinstance e KeyboardInterrupt
                           then (print Goodbye w, Return ())
                           else if isinstance e Exception
                           then main_loop env directory_name
                                  (print (Unexpected_error_in_main_loop (exc_str e)) w)
                           else (w, Raise e)
                       | (w, Blocked) \<Rightarrow> (w, Blocked)
                       | (w, Diverge) \<Rightarrow> (w, Diverge)))
         | (w, Raise e) \<Rightarrow>
             if isinstance e KeyboardInterrupt
             then (print Goodbye w, Return ())
             else if isinstance e Exception
             then main_loop env directory_name
                    (print (Unexpected_error_in_main_loop (exc_str e)) w)
             else (w, Raise e)
         | (w, Blocked) \<Rightarrow> (w, Blocked)
         | (w, Diverge) \<Rightarrow> (w, Diverge))"
  by pat_completeness auto
termination
  by (relation "measure (\<lambda>(env, directory_name, w). length (stdin w))")
     (auto simp: stdin_print
           dest!: py_input_consumes [OF sym] download_image_stdin_le [OF sym])

declare main_loop.simps [simp del]

definition main :: "env \<Rightarrow> world \<Rightarrow> world \<times> unit outcome" where
  "main env w =
     (let w = print Rule50 w;
          w = print Title w;
          w = print Rule50 w;
          w = print Community w;
          w = print Respect w;
          w = print Sharing w;
          w = print Practicality w;
          w = print Rule50 w;
          directory_name = ''Fetched_Images''
      in case create_directory env directory_name w of
           (w, Return created) \<Rightarrow>
             if \<not> created then (w, Return ()) else main_loop env directory_name w
         | (w, Raise e) \<Rightarrow> (w, Raise e)
         | (w, Blocked) \<Rightarrow> (w, Blocked)
         | (w, Diverge) \<Rightarrow> (w, Diverge))"


section \<open>Auxiliary definitions\<close>

definition dec :: "string \<Rightarrow> nat" where
  \<comment> \<open>the number that a string of decimal digits denotes: the inverse of \<open>str_nat\<close>\<close>
  "dec s = foldl (\<lambda>a c. 10 * a + (of_char c - 48)) 0 s"

definition asked ::
  "url_parts \<Rightarrow> string \<Rightarrow> input_event list \<Rightarrow> message list \<Rightarrow> world \<Rightarrow> world" where
  \<comment> \<open>the world once lines 53 to 64 have run on a response that is not an image: \<open>rest\<close> is
      what remains to be typed, \<open>msgs\<close> what was printed after the prompt\<close>
  "asked parsed url rest msgs w =
     \<lparr>stdin = rest,
      stdout = stdout w @
        [Connecting_to (netloc parsed), Warning_not_image, Prompt_continue] @ msgs,
      fs = fs w, made_dirs = made_dirs w, http_requests = http_requests w @ [url]\<rparr>"


section \<open>A sample environment\<close>

text \<open>
  Concrete values for the examples: what the library calls return on the inputs that the
  examples use. \<open>sample_urlparse\<close> is \<^verbatim>\<open>urlparse\<close> on a string that is either
  \<^verbatim>\<open>http://host/path\<close> or has no scheme and no host, without query, fragment or parameters;
  \<^verbatim>\<open>unquote\<close> is the identity on a string without a percent sign.
\<close>

definition sample_urlparse :: "string \<Rightarrow> exc + url_parts" where
  "sample_urlparse url =
     (if startswith url ''http://''
      then Inr \<lparr>netloc = takeWhile (\<lambda>c. c \<noteq> CHR ''/'') (drop 7 url),
                path = dropWhile (\<lambda>c. c \<noteq> CHR ''/'') (drop 7 url)\<rparr>
      else Inr \<lparr>netloc = [], path = url\<rparr>)"

definition sample_guess_extension :: "string \<Rightarrow> string option" where
  "sample_guess_extension t =
     (if t = ''image/png'' then Some ''.png''
      else if t = ''image/jpeg'' then Some ''.jpg''
      else if t = ''text/html'' then Some ''.html''
      else None)"

definition sample_now :: datetime where
  "sample_now = \<lparr>year = 2024, month = 3, day = 9, hour = 14, minute = 5, second = 7\<rparr>"

definition sample_env :: "(string \<Rightarrow> exc + response) \<Rightarrow> env" where
  "sample_env get =
     \<lparr>urlparse = sample_urlparse, unquote = (\<lambda>s. s),
      guess_extension = sample_guess_extension, now = sample_now,
      requests_get = get, makedirs = (\<lambda>d. None), open_wb = (\<lambda>p. None)\<rparr>"

definition sample_response :: "(string \<rightharpoonup> string) \<Rightarrow> response" where
  "sample_response hs =
     \<lparr>status_code = 200, reason = ''OK'', headers = hs,
      body = [Inr ''abc'', Inr [], Inr ''de'']\<rparr>"

definition sample_world :: "input_event list \<Rightarrow> world" where
  "sample_world typed =
     \<lparr>stdin = typed, stdout = [], fs = Map.empty, made_dirs = [], http_requests = []\<rparr>"

definition isdigit :: "char \<Rightarrow> bool" where
  \<comment> \<open>the ten ASCII digits\<close>
  "isdigit c = (48 \<le> (of_char c :: nat) \<and> (of_char c :: nat) \<le> 57)"

definition ascii_name_char :: "char \<Rightarrow> bool" where
  \<comment> \<open>the set \<^verbatim>\<open>[A-Za-z0-9 ._-]\<close>\<close>
  "ascii_name_char c = (let n = (of_char c :: nat) in
      (48 \<le> n \<and> n \<le> 57) \<or> (65 \<le> n \<and> n \<le> 90) \<or> (97 \<le> n \<and> n \<le> 122) \<or>
      c \<in> set [CHR '' '', CHR ''.'', CHR ''_'', CHR ''-''])"


section \<open>Facts about the string functions\<close>

lemma str_nat_digit: "n < 10 \<Longrightarrow> str_nat n = [char_of (48 + n)]"
  by (subst str_nat.simps) simp

lemma dec_str_nat: "dec (str_nat n) = n"
proof (induction n rule: str_nat.induct)
  case (1 n)
  show ?case
  proof (cases "n < 10")
    case True
    then show ?thesis by (subst str_nat.simps) (simp add: dec_def)
  next
    case False
    have m: "(48 + n mod 10) mod 256 = 48 + n mod 10"
      by (rule mod_less) (simp add: less_le_trans [OF add_strict_left_mono [OF mod_less_divisor]])
    have "dec (str_nat n) = 10 * dec (str_nat (n div 10)) + n mod 10"
      using False m by (subst str_nat.simps) (simp add: dec_def)
    with 1 False show ?thesis by simp
  qed
qed

lemma str_nat_inj: "str_nat m = str_nat n \<Longrightarrow> m = n"
  by (metis dec_str_nat)

lemma candidate_inj: "candidate b e m = candidate b e n \<Longrightarrow> m = n"
  by (simp add: candidate_def str_nat_inj)

lemma splitext_append: "splitext p = (b, e) \<Longrightarrow> b @ e = p"
  by (auto simp: splitext_def Let_def split: if_splits)


section \<open>The collision loop\<close>

lemma unique_loop_free: "\<not> exists p \<Longrightarrow> unique_loop exists b e p c = Some p"
  by (subst unique_loop.simps) simp

lemma unique_loop_step:
  "exists p \<Longrightarrow> unique_loop exists b e p c = unique_loop exists b e (candidate b e c) (c + 1)"
  by (subst unique_loop.simps) simp

lemma unique_loop_reaches:
  assumes "c \<le> n" and "\<And>k. c \<le> k \<Longrightarrow> k < n \<Longrightarrow> exists (candidate b e k)"
    and "\<not> exists (candidate b e n)"
  shows "unique_loop exists b e (candidate b e c) (c + 1) = Some (candidate b e n)"
  using assms
proof (induction "n - c" arbitrary: c)
  case 0
  then have "c = n" by simp
  with 0 show ?case by (simp add: unique_loop_free)
next
  case (Suc d)
  then have lt: "c < n" by simp
  with Suc.prems have ex: "exists (candidate b e c)" by simp
  have "unique_loop exists b e (candidate b e (c + 1)) (c + 1 + 1) = Some (candidate b e n)"
  proof (rule Suc.hyps(1))
    show "d = n - (c + 1)" using Suc.hyps(2) by simp
    show "c + 1 \<le> n" using lt by simp
    show "\<And>k. c + 1 \<le> k \<Longrightarrow> k < n \<Longrightarrow> exists (candidate b e k)"
      using Suc.prems(2) by simp
    show "\<not> exists (candidate b e n)" by (rule Suc.prems(3))
  qed
  with ex show ?case by (simp add: unique_loop_step)
qed

lemma free_candidate_exists:
  assumes "finite {p. exists p}"
  shows "\<exists>n\<ge>1. \<not> exists (candidate b e n)"
proof (rule ccontr)
  assume "\<not> ?thesis"
  then have "candidate b e ` {1..} \<subseteq> {p. exists p}" by auto
  then have "finite (candidate b e ` {1..})" using assms by (rule finite_subset)
  moreover have "inj_on (candidate b e) {1..}"
    by (rule inj_onI) (rule candidate_inj)
  ultimately have "finite {1::nat ..}" by (rule finite_imageD)
  then show False by (simp add: infinite_Ici)
qed

lemma unique_save_path_first_free:
  assumes fin: "finite {p. exists p}"
    and sp: "splitext X = (base_name, extension)"
  shows "\<exists>p. unique_save_path exists X = Some p \<and> \<not> exists p \<and> base_name @ extension = X \<and>
           (if exists X
            then \<exists>n\<ge>1. p = base_name @ ''_'' @ str_nat n @ extension \<and>
                   (\<forall>k. 1 \<le> k \<and> k < n \<longrightarrow> exists (base_name @ ''_'' @ str_nat k @ extension))
            else p = X)"
proof (cases "exists X")
  case False
  then show ?thesis
    using sp by (simp add: unique_save_path_def unique_loop_free splitext_append)
next
  case True
  define P where "P n = (1 \<le> n \<and> \<not> exists (candidate base_name extension n))" for n
  from free_candidate_exists [OF fin] have "\<exists>n. P n" by (auto simp: P_def)
  then obtain n where n: "P n" and least: "\<And>k. k < n \<Longrightarrow> \<not> P k"
    using exists_least_iff [of P] by auto
  have below: "exists (candidate base_name extension k)" if "1 \<le> k" "k < n" for k
    using least [OF that(2)] that(1) by (simp add: P_def)
  have "unique_loop exists base_name extension (candidate base_name extension 1) (1 + 1) =
        Some (candidate base_name extension n)"
    using n below by (intro unique_loop_reaches) (auto simp: P_def)
  then have "unique_save_path exists X = Some (candidate base_name extension n)"
    using True sp by (simp add: unique_save_path_def unique_loop_step)
  moreover have "candidate base_name extension m = base_name @ ''_'' @ str_nat m @ extension" for m
    by (simp only: candidate_def)
  ultimately show ?thesis
    using True n below sp by (auto simp: P_def splitext_append)
qed

lemma save_response_writes_only:
  assumes "unique_save_path (os_path_exists w) (os_path_join directory filename) = Some p"
  shows "snd (save_response env directory filename response w) \<noteq> Diverge \<and>
         (\<forall>q. q \<noteq> p \<longrightarrow> fs (fst (save_response env directory filename response w)) q = fs w q)"
  using assms
  by (auto simp: save_response_def Let_def print_def split: option.splits prod.splits)

text \<open>
  C1. Let \<open>X\<close> be the candidate path (the destination directory joined with the resolved
  filename), split by \<^verbatim>\<open>os.path.splitext\<close> into \<open>base_name\<close> and \<open>extension\<close>, and let the
  set of existing paths be finite. Then the search for a free path terminates; its result
  does not exist; it is \<open>X\<close> itself when \<open>X\<close> is free, and otherwise it is
  \<open>base_name_n extension\<close> for the first \<open>n = 1, 2, 3, \<dots>\<close> whose path is free (so \<open>X_1\<close> when
  only \<open>X\<close> exists, \<open>X_2\<close> when \<open>X_1\<close> exists too, and so on), the suffix standing before the
  extension. Saving the response (lines 90 to 110) therefore does not loop for ever, and it
  changes no path other than that free one: every file that existed keeps its content.
\<close>

theorem unique_save_path_resolves:
  assumes fin: "finite {p. os_path_exists w p}"
    and X: "X = os_path_join directory filename"
    and sp: "splitext X = (base_name, extension)"
  shows "\<exists>p. unique_save_path (os_path_exists w) X = Some p \<and> \<not> os_path_exists w p \<and>
           base_name @ extension = X \<and>
           (if os_path_exists w X
            then \<exists>n\<ge>1. p = base_name @ ''_'' @ str_nat n @ extension \<and>
                   (\<forall>k. 1 \<le> k \<and> k < n \<longrightarrow>
                      os_path_exists w (base_name @ ''_'' @ str_nat k @ extension))
            else p = X) \<and>
           snd (save_response env directory filename response w) \<noteq> Diverge \<and>
           (\<forall>q. os_path_exists w q \<or> q \<noteq> p \<longrightarrow>
              fs (fst (save_response env directory filename response w)) q = fs w q)"
proof -
  from unique_save_path_first_free [OF fin sp]
  obtain p where p: "unique_save_path (os_path_exists w) X = Some p"
    and free: "\<not> os_path_exists w p"
    and rest: "base_name @ extension = X"
      "if os_path_exists w X
       then \<exists>n\<ge>1. p = base_name @ ''_'' @ str_nat n @ extension \<and>
              (\<forall>k. 1 \<le> k \<and> k < n \<longrightarrow>
                 os_path_exists w (base_name @ ''_'' @ str_nat k @ extension))
       else p = X"
    by blast
  from p have u: "unique_save_path (os_path_exists w) (os_path_join directory filename) = Some p"
    by (simp only: X)
  note s = save_response_writes_only [OF u, of env response]
  from s have "snd (save_response env directory filename response w) \<noteq> Diverge" by (rule conjunct1)
  moreover have "fs (fst (save_response env directory filename response w)) q = fs w q"
    if "os_path_exists w q \<or> q \<noteq> p" for q
  proof -
    from that free have "q \<noteq> p" by blast
    with s show ?thesis by blast
  qed
  ultimately show ?thesis using p free rest by blast
qed

theorem unique_save_path_resolves_witness:
  "finite {p. os_path_exists
     ((sample_world [])\<lparr>fs := [''Fetched_Images/cat.png'' \<mapsto> ''old'',
                              ''Fetched_Images/cat_1.png'' \<mapsto> ''older'']\<rparr>) p} \<and>
   splitext (os_path_join ''Fetched_Images'' ''cat.png'') = (''Fetched_Images/cat'', ''.png'') \<and>
   unique_save_path
     (os_path_exists
        ((sample_world [])\<lparr>fs := [''Fetched_Images/cat.png'' \<mapsto> ''old'',
                                 ''Fetched_Images/cat_1.png'' \<mapsto> ''older'']\<rparr>))
     (os_path_join ''Fetched_Images'' ''cat.png'') = Some ''Fetched_Images/cat_2.png'' \<and>
   save_response (sample_env (\<lambda>url. Inl (Exc ConnectionError []))) ''Fetched_Images'' ''cat.png''
     (sample_response Map.empty)
     ((sample_world [])\<lparr>fs := [''Fetched_Images/cat.png'' \<mapsto> ''old'',
                              ''Fetched_Images/cat_1.png'' \<mapsto> ''older'']\<rparr>) =
   (\<lparr>stdin = [],
     stdout = [Downloading ''cat.png'', Successfully_saved ''cat.png'' 5,
               Location ''Fetched_Images/cat_2.png''],
     fs = [''Fetched_Images/cat.png'' \<mapsto> ''old'', ''Fetched_Images/cat_1.png'' \<mapsto> ''older'',
           ''Fetched_Images/cat_2.png'' \<mapsto> ''abcde''],
     made_dirs = [], http_requests = []\<rparr>, Return True)"
proof -
  let ?w = "(sample_world [])\<lparr>fs := [''Fetched_Images/cat.png'' \<mapsto> ''old'',
                                    ''Fetched_Images/cat_1.png'' \<mapsto> ''older'']\<rparr>"
  let ?E = "os_path_exists ?w"
  let ?X = "os_path_join ''Fetched_Images'' ''cat.png''"
  let ?c = "\<lambda>n. ''Fetched_Images/cat'' @ ''_'' @ str_nat n @ ''.png''"
  let ?env = "sample_env (\<lambda>url. Inl (Exc ConnectionError []))"
  have dom: "{p. ?E p} = {''Fetched_Images/cat.png'', ''Fetched_Images/cat_1.png''}"
    by (auto simp: os_path_exists_def sample_world_def split: if_splits)
  have fin: "finite {p. ?E p}" by (simp only: dom) simp
  have j: "?X = ''Fetched_Images/cat.png''"
    by (simp add: os_path_join_def startswith_def endswith_def)
  have sp: "splitext ?X = (''Fetched_Images/cat'', ''.png'')"
    by (simp add: j splitext_def)
  have EX: "?E ?X"
    by (simp add: j os_path_exists_def sample_world_def)
  have s1: "str_nat (Suc 0) = ''1''" and s2: "str_nat 2 = ''2''"
    by (simp_all add: str_nat_digit char_of_eq_iff)
  have c1: "?E (?c 1)" and c2: "\<not> ?E (?c 2)"
    by (simp_all add: s1 s2 os_path_exists_def sample_world_def)
  from unique_save_path_resolves [OF fin refl sp, of ?env "sample_response Map.empty"]
  obtain p where p: "unique_save_path ?E ?X = Some p" and free: "\<not> ?E p"
    and ex: "\<exists>n\<ge>1. p = ?c n \<and> (\<forall>k. 1 \<le> k \<and> k < n \<longrightarrow> ?E (?c k))"
    unfolding if_P [OF EX] by blast
  from ex obtain n where n: "1 \<le> n" "p = ?c n"
    and below: "\<forall>k. 1 \<le> k \<and> k < n \<longrightarrow> ?E (?c k)"
    by blast
  have "n \<noteq> 1" using free n(2) c1 by blast
  moreover have "\<not> 2 < n" using below c2 by (metis one_le_numeral)
  ultimately have "n = 2" using n(1) by simp
  then have "p = ''Fetched_Images/cat_2.png''" using n(2) s2 by simp
  with p have u: "unique_save_path ?E ?X = Some ''Fetched_Images/cat_2.png''" by simp
  have sv: "save_response ?env ''Fetched_Images'' ''cat.png'' (sample_response Map.empty) ?w =
    (\<lparr>stdin = [],
      stdout = [Downloading ''cat.png'', Successfully_saved ''cat.png'' 5,
                Location ''Fetched_Images/cat_2.png''],
      fs = [''Fetched_Images/cat.png'' \<mapsto> ''old'', ''Fetched_Images/cat_1.png'' \<mapsto> ''older'',
            ''Fetched_Images/cat_2.png'' \<mapsto> ''abcde''],
      made_dirs = [], http_requests = []\<rparr>, Return True)"
    by (simp only: save_response_def Let_def u option.case)
       (simp add: print_def sample_env_def sample_response_def sample_world_def)
  from fin sp u sv show ?thesis by (intro conjI)
qed

section \<open>Sanitizing the name (line 86)\<close>

lemma rstrip_no_trailing_space: "rstrip s = [] \<or> \<not> isspace (last (rstrip s))"
proof (cases "dropWhile isspace (rev s)")
  case Nil
  then show ?thesis by (simp add: rstrip_def)
next
  case (Cons x xs)
  then have "\<not> isspace x" by (metis hd_dropWhile list.sel(1) list.distinct(1))
  with Cons show ?thesis by (simp add: rstrip_def)
qed

lemma set_rstrip: "set (rstrip s) \<subseteq> set s"
  by (auto simp: rstrip_def dest: set_dropWhileD)

lemma ascii_alnum: "(of_char c :: nat) < 128 \<Longrightarrow> isalnum c \<Longrightarrow> ascii_name_char c"
  by (auto simp: isalnum_def ascii_name_char_def Let_def)

text \<open>
  C3, as stated, fails: \<^verbatim>\<open>str.isalnum\<close> is true of letters and digits beyond ASCII, so the
  name made of \<^verbatim>\<open>caf\<close>, the letter U+00E9 and \<^verbatim>\<open>.png\<close> keeps that letter, which is not in \<^verbatim>\<open>[A-Za-z0-9 ._-]\<close>.
\<close>

theorem sanitize_keeps_non_ascii_letter:
  "CHR 0xE9 \<in> set (sanitize (''caf'' @ [CHR 0xE9] @ ''.png'')) \<and> \<not> ascii_name_char (CHR 0xE9)"
  by (simp add: sanitize_def rstrip_def isalnum_def isspace_def ascii_name_char_def)

text \<open>
  C3, amended. The sanitized name contains only characters that \<^verbatim>\<open>str.isalnum\<close> accepts
  (which include letters and digits beyond ASCII), spaces, hyphens, underscores and periods,
  and it does not end in whitespace. When the candidate is ASCII, these characters are
  exactly those of \<^verbatim>\<open>[A-Za-z0-9 ._-]\<close>.
\<close>

theorem sanitize_charset:
  "(\<forall>c \<in> set (sanitize filename).
      isalnum c \<or> c = CHR '' '' \<or> c = CHR ''-'' \<or> c = CHR ''_'' \<or> c = CHR ''.'') \<and>
   (sanitize filename = [] \<or> \<not> isspace (last (sanitize filename))) \<and>
   ((\<forall>c \<in> set filename. (of_char c :: nat) < 128) \<longrightarrow>
      (\<forall>c \<in> set (sanitize filename). ascii_name_char c))"
proof (intro conjI)
  let ?kept = "filter (\<lambda>c. isalnum c \<or> c \<in> set [CHR '' '', CHR ''-'', CHR ''_'', CHR ''.'']) filename"
  have sub: "set (sanitize filename) \<subseteq> set ?kept"
    unfolding sanitize_def by (rule set_rstrip)
  show "\<forall>c \<in> set (sanitize filename).
      isalnum c \<or> c = CHR '' '' \<or> c = CHR ''-'' \<or> c = CHR ''_'' \<or> c = CHR ''.''"
    using sub by auto
  show "sanitize filename = [] \<or> \<not> isspace (last (sanitize filename))"
    unfolding sanitize_def by (rule rstrip_no_trailing_space)
  show "(\<forall>c \<in> set filename. (of_char c :: nat) < 128) \<longrightarrow>
      (\<forall>c \<in> set (sanitize filename). ascii_name_char c)"
  proof (intro impI ballI)
    fix c assume a: "\<forall>c \<in> set filename. (of_char c :: nat) < 128" and c: "c \<in> set (sanitize filename)"
    from c sub have k: "c \<in> set ?kept" by blast
    then have "c \<in> set filename" by simp
    with a have "(of_char c :: nat) < 128" by blast
    moreover from k have "isalnum c \<or> c \<in> set [CHR '' '', CHR ''-'', CHR ''_'', CHR ''.'']" by simp
    ultimately show "ascii_name_char c"
      using ascii_alnum [of c] by (auto simp: ascii_name_char_def)
  qed
qed

theorem sanitize_charset_witness:
  "sanitize ''my <photo>?.png  '' = ''my photo.png'' \<and>
   list_all (\<lambda>c. (of_char c :: nat) < 128) ''my <photo>?.png  '' \<and>
   list_all ascii_name_char ''my photo.png'' \<and>
   \<not> isspace (last ''my photo.png'')"
proof -
  have s: "sanitize ''my <photo>?.png  '' = ''my photo.png''"
    by (simp add: sanitize_def rstrip_def isalnum_def isspace_def)
  have a: "\<forall>c \<in> set ''my <photo>?.png  ''. (of_char c :: nat) < 128" by simp
  from sanitize_charset [of "''my <photo>?.png  ''"] a
  have "(\<forall>c \<in> set (sanitize ''my <photo>?.png  ''). ascii_name_char c)"
    and "\<not> isspace (last (sanitize ''my <photo>?.png  ''))"
    unfolding s by (blast, simp)
  with s a show ?thesis by (simp add: list_all_iff)
qed


section \<open>Facts about \<^verbatim>\<open>download_image\<close>\<close>

lemma lower_char_y: "lower_char c = CHR ''y'' \<longleftrightarrow> c = CHR ''y'' \<or> c = CHR ''Y''"
proof -
  have "lower_char c = CHR ''y'' \<longleftrightarrow> (of_char (lower_char c) :: nat) = of_char (CHR ''y'')"
    by (simp only: of_char_eq_iff)
  also have "\<dots> \<longleftrightarrow> (of_char c :: nat) = 121 \<or> (of_char c :: nat) = 89"
    by (auto simp add: lower_char_def Let_def)
  also have "\<dots> \<longleftrightarrow> (of_char c :: nat) = of_char (CHR ''y'') \<or> (of_char c :: nat) = of_char (CHR ''Y'')"
    by simp
  also have "\<dots> \<longleftrightarrow> c = CHR ''y'' \<or> c = CHR ''Y''"
    by (simp only: of_char_eq_iff)
  finally show ?thesis .
qed

lemma lower_y: "lower answer = ''y'' \<longleftrightarrow> answer = ''y'' \<or> answer = ''Y''"
  by (cases answer) (auto simp: lower_def lower_char_y)

lemma download_try_non_image:
  assumes "urlparse env url = Inr parsed" and "requests_get env url = Inr response"
    and "raise_for_status url response = None"
    and "\<not> startswith (headers_get response ''content-type'' []) ''image/''"
  shows "download_try env url d w =
    (case stdin w of
       [] \<Rightarrow> (asked parsed url [] [] w, Blocked)
     | Line answer # rest \<Rightarrow>
         if lower answer \<noteq> ''y''
         then (asked parsed url rest [Download_cancelled] w, Return False)
         else resolve_and_save env url d response (headers_get response ''content-type'' [])
                (asked parsed url rest [] w)
     | EOF # rest \<Rightarrow>
         (asked parsed url rest [] w, Raise (Exc EOFError ''EOF when reading a line''))
     | Interrupt # rest \<Rightarrow>
         (asked parsed url rest [] w, Raise (Exc KeyboardInterrupt [])))"
  using assms
  by (cases w)
     (simp add: download_try_def py_input_def print_def asked_def Let_def
           split: list.splits input_event.splits)

lemma failure_message_text:
  "first_match except_clauses e = Some m \<Longrightarrow> text_of m \<noteq> text_of Download_cancelled"
  by (auto simp: except_clauses_def split: if_splits)

lemma unique_save_path_free: "\<not> exists p \<Longrightarrow> unique_save_path exists p = Some p"
  by (simp add: unique_save_path_def unique_loop_free split: prod.splits)

lemma sample_strftime: "strftime sample_now = ''20240309_140507''"
  by (simp add: strftime_def sample_now_def two_digits_def str_nat.simps char_of_eq_iff)


text \<open>
  C2. The claim asks for a message of its own for each of the six categories. The
  \<^verbatim>\<open>except\<close> clause for \<^verbatim>\<open>RequestException\<close> stands first and the classes of the next three
  clauses derive from it, so a timeout, an HTTP status failure and too many redirects are
  all reported as \<^verbatim>\<open>Network error\<close>: here is the program on a request that times out.
\<close>

theorem timeout_reported_as_network_error:
  "first_match except_clauses (Exc Timeout s) = Some (Network_error s) \<and>
   first_match except_clauses (Exc HTTPError s) = Some (Network_error s) \<and>
   first_match except_clauses (Exc TooManyRedirects s) = Some (Network_error s) \<and>
   download_image (sample_env (\<lambda>url. Inl (Exc Timeout ''timed out'')))
       ''http://example.com/a.png'' ''Fetched_Images'' (sample_world []) =
     (\<lparr>stdin = [], stdout = [Connecting_to ''example.com'', Network_error ''timed out''],
       fs = Map.empty, made_dirs = [], http_requests = [''http://example.com/a.png'']\<rparr>,
      Return False)"
  by (simp add: except_clauses_def isinstance_def download_image_def handle_exceptions_def
        download_try_def sample_env_def sample_urlparse_def sample_world_def startswith_def
        print_def)


text \<open>
  C4, as stated, fails in its last part: a download that the user declines returns
  \<^verbatim>\<open>False\<close>, the very value that a failed download returns.
\<close>

theorem cancelled_download_returns_failure_value:
  "download_image (sample_env (\<lambda>url. Inr (sample_response [''content-type'' \<mapsto> ''text/html''])))
       ''http://example.com/page'' ''Fetched_Images'' (sample_world [Line ''n'']) =
     (\<lparr>stdin = [],
       stdout = [Connecting_to ''example.com'', Warning_not_image, Prompt_continue,
                 Download_cancelled],
       fs = Map.empty, made_dirs = [], http_requests = [''http://example.com/page'']\<rparr>,
      Return False) \<and>
   download_image (sample_env (\<lambda>url. Inl (Exc ConnectionError ''refused'')))
       ''http://example.com/page'' ''Fetched_Images'' (sample_world [Line ''n'']) =
     (\<lparr>stdin = [Line ''n''],
       stdout = [Connecting_to ''example.com'', Network_error ''refused''],
       fs = Map.empty, made_dirs = [], http_requests = [''http://example.com/page'']\<rparr>,
      Return False)"
  by (simp add: except_clauses_def isinstance_def download_image_def handle_exceptions_def
        download_try_def sample_env_def sample_urlparse_def sample_world_def startswith_def
        sample_response_def raise_for_status_def headers_get_def lower_def lower_char_def
        py_input_def print_def)

text \<open>
  C4, amended. When the content type of the response does not start with \<^verbatim>\<open>image/\<close>, the
  download does not fail by itself: the warning is printed and an answer is asked for
  (with nothing typed, the program waits at the prompt). On every answer whose lower-case
  form is not \<^verbatim>\<open>y\<close> nothing is saved, \<^verbatim>\<open>Download cancelled.\<close> is printed and the function
  returns \<^verbatim>\<open>False\<close>, as it does on a failure; the text of that message differs from the
  text of every message that reports a failure.
\<close>

theorem non_image_needs_confirmation:
  assumes "urlparse env url = Inr parsed" and "requests_get env url = Inr response"
    and "raise_for_status url response = None"
    and "\<not> startswith (headers_get response ''content-type'' []) ''image/''"
  shows "(stdin w = [] \<longrightarrow>
            download_image env url d w =
              (\<lparr>stdin = [],
                stdout = stdout w @
                  [Connecting_to (netloc parsed), Warning_not_image, Prompt_continue],
                fs = fs w, made_dirs = made_dirs w,
                http_requests = http_requests w @ [url]\<rparr>, Blocked)) \<and>
         (\<forall>answer rest. stdin w = Line answer # rest \<and> lower answer \<noteq> ''y'' \<longrightarrow>
            download_image env url d w =
              (\<lparr>stdin = rest,
                stdout = stdout w @
                  [Connecting_to (netloc parsed), Warning_not_image, Prompt_continue,
                   Download_cancelled],
                fs = fs w, made_dirs = made_dirs w,
                http_requests = http_requests w @ [url]\<rparr>, Return False)) \<and>
         (\<forall>e m. first_match except_clauses e = Some m \<longrightarrow>
            text_of m \<noteq> text_of Download_cancelled)"
  using failure_message_text
  by (auto simp: download_image_def handle_exceptions_def download_try_non_image [OF assms]
        asked_def)

theorem non_image_needs_confirmation_witness:
  "urlparse (sample_env (\<lambda>url. Inr (sample_response [''content-type'' \<mapsto> ''text/html''])))
       ''http://example.com/page'' = Inr \<lparr>netloc = ''example.com'', path = ''/page''\<rparr> \<and>
   raise_for_status ''http://example.com/page''
       (sample_response [''content-type'' \<mapsto> ''text/html'']) = None \<and>
   \<not> startswith (headers_get (sample_response [''content-type'' \<mapsto> ''text/html''])
        ''content-type'' []) ''image/'' \<and>
   lower ''no'' \<noteq> ''y'' \<and>
   download_image (sample_env (\<lambda>url. Inr (sample_response [''content-type'' \<mapsto> ''text/html''])))
       ''http://example.com/page'' ''Fetched_Images'' (sample_world [Line ''no'']) =
     (\<lparr>stdin = [],
       stdout = [Connecting_to ''example.com'', Warning_not_image, Prompt_continue,
                 Download_cancelled],
       fs = Map.empty, made_dirs = [], http_requests = [''http://example.com/page'']\<rparr>,
      Return False) \<and>
   download_image (sample_env (\<lambda>url. Inr (sample_response [''content-type'' \<mapsto> ''text/html''])))
       ''http://example.com/page'' ''Fetched_Images'' (sample_world []) =
     (\<lparr>stdin = [],
       stdout = [Connecting_to ''example.com'', Warning_not_image, Prompt_continue],
       fs = Map.empty, made_dirs = [], http_requests = [''http://example.com/page'']\<rparr>,
      Blocked) \<and>
   first_match except_clauses (Exc OSError ''disk full'') = Some (File_system_error ''disk full'') \<and>
   text_of (File_system_error ''disk full'') \<noteq> text_of Download_cancelled"
proof -
  let ?R = "sample_response [''content-type'' \<mapsto> ''text/html'']"
  let ?E = "sample_env (\<lambda>url. Inr ?R)"
  let ?U = "''http://example.com/page''"
  have u: "urlparse ?E ?U = Inr \<lparr>netloc = ''example.com'', path = ''/page''\<rparr>"
    by (simp add: sample_env_def sample_urlparse_def startswith_def)
  have g: "requests_get ?E ?U = Inr ?R" by (simp add: sample_env_def)
  have s: "raise_for_status ?U ?R = None"
    by (simp add: raise_for_status_def sample_response_def)
  have c: "\<not> startswith (headers_get ?R ''content-type'' []) ''image/''"
    by (simp add: headers_get_def sample_response_def startswith_def lower_def lower_char_def)
  have l: "lower ''no'' \<noteq> ''y''" by (simp add: lower_def)
  have f: "first_match except_clauses (Exc OSError ''disk full'') =
             Some (File_system_error ''disk full'')"
    by (simp add: except_clauses_def isinstance_def)
  note T = non_image_needs_confirmation [OF u g s c]
  from T [of "sample_world []" "''Fetched_Images''"]
       T [of "sample_world [Line ''no'']" "''Fetched_Images''"] u s c l f
  show ?thesis by (simp add: sample_world_def)
qed


text \<open>
  C10. At the prompt of a response that is not an image, the download goes on to lines 69
  to 110 exactly when the answer is \<^verbatim>\<open>y\<close> or \<^verbatim>\<open>Y\<close>; on every other answer, \<^verbatim>\<open>yes\<close> included,
  it is cancelled.
\<close>

theorem only_y_continues:
  assumes "urlparse env url = Inr parsed" and "requests_get env url = Inr response"
    and "raise_for_status url response = None"
    and "\<not> startswith (headers_get response ''content-type'' []) ''image/''"
    and "stdin w = Line answer # rest"
  shows "download_image env url d w =
           (if answer = ''y'' \<or> answer = ''Y''
            then handle_exceptions
                   (resolve_and_save env url d response (headers_get response ''content-type'' [])
                      \<lparr>stdin = rest,
                       stdout = stdout w @
                         [Connecting_to (netloc parsed), Warning_not_image, Prompt_continue],
                       fs = fs w, made_dirs = made_dirs w,
                       http_requests = http_requests w @ [url]\<rparr>)
            else (\<lparr>stdin = rest,
                   stdout = stdout w @
                     [Connecting_to (netloc parsed), Warning_not_image, Prompt_continue,
                      Download_cancelled],
                   fs = fs w, made_dirs = made_dirs w,
                   http_requests = http_requests w @ [url]\<rparr>, Return False))"
  using assms(5) lower_y [of answer]
  by (auto simp: download_image_def handle_exceptions_def
        download_try_non_image [OF assms(1-4)] asked_def)


theorem only_y_continues_witness:
  "urlparse (sample_env (\<lambda>url. Inr (sample_response [''content-type'' \<mapsto> ''text/html''])))
       ''http://example.com/page'' = Inr \<lparr>netloc = ''example.com'', path = ''/page''\<rparr> \<and>
   raise_for_status ''http://example.com/page''
       (sample_response [''content-type'' \<mapsto> ''text/html'']) = None \<and>
   \<not> startswith (headers_get (sample_response [''content-type'' \<mapsto> ''text/html''])
        ''content-type'' []) ''image/'' \<and>
   download_image (sample_env (\<lambda>url. Inr (sample_response [''content-type'' \<mapsto> ''text/html''])))
       ''http://example.com/page'' ''Fetched_Images'' (sample_world [Line ''yes'']) =
     (\<lparr>stdin = [],
       stdout = [Connecting_to ''example.com'', Warning_not_image, Prompt_continue,
                 Download_cancelled],
       fs = Map.empty, made_dirs = [], http_requests = [''http://example.com/page'']\<rparr>,
      Return False) \<and>
   download_image (sample_env (\<lambda>url. Inr (sample_response [''content-type'' \<mapsto> ''text/html''])))
       ''http://example.com/page'' ''Fetched_Images'' (sample_world [Line ''Y'']) =
     (\<lparr>stdin = [],
       stdout = [Connecting_to ''example.com'', Warning_not_image, Prompt_continue,
                 Downloading ''image_20240309_140507.html'',
                 Successfully_saved ''image_20240309_140507.html'' 5,
                 Location ''Fetched_Images/image_20240309_140507.html''],
       fs = [''Fetched_Images/image_20240309_140507.html'' \<mapsto> ''abcde''],
       made_dirs = [], http_requests = [''http://example.com/page'']\<rparr>,
      Return True)"
proof -
  let ?R = "sample_response [''content-type'' \<mapsto> ''text/html'']"
  let ?E = "sample_env (\<lambda>url. Inr ?R)"
  let ?U = "''http://example.com/page''"
  have u: "urlparse ?E ?U = Inr \<lparr>netloc = ''example.com'', path = ''/page''\<rparr>"
    by (simp add: sample_env_def sample_urlparse_def startswith_def)
  have g: "requests_get ?E ?U = Inr ?R" by (simp add: sample_env_def)
  have s: "raise_for_status ?U ?R = None"
    by (simp add: raise_for_status_def sample_response_def)
  have c: "\<not> startswith (headers_get ?R ''content-type'' []) ''image/''"
    by (simp add: headers_get_def sample_response_def startswith_def lower_def lower_char_def)
  have ct: "headers_get ?R ''content-type'' [] = ''text/html''"
    by (simp add: headers_get_def sample_response_def lower_def lower_char_def)
  have name: "resolve_filename ?E ?U ?R ''text/html'' = Inr ''image_20240309_140507.html''"
    by (simp add: resolve_filename_def candidate_filename_def extract_filename_def generated_name_def sample_strftime
          sample_env_def sample_urlparse_def sample_guess_extension_def sample_response_def
          headers_get_def lower_def lower_char_def startswith_def endswith_def split_def
          sanitize_def rstrip_def isalnum_def isspace_def Let_def)
  have save: "handle_exceptions (resolve_and_save ?E ?U ''Fetched_Images'' ?R ''text/html''
      \<lparr>stdin = [],
        stdout = [Connecting_to ''example.com'', Warning_not_image, Prompt_continue],
        fs = Map.empty, made_dirs = [], http_requests = [?U]\<rparr>) =
     (\<lparr>stdin = [],
       stdout = [Connecting_to ''example.com'', Warning_not_image, Prompt_continue,
                 Downloading ''image_20240309_140507.html'',
                 Successfully_saved ''image_20240309_140507.html'' 5,
                 Location ''Fetched_Images/image_20240309_140507.html''],
       fs = [''Fetched_Images/image_20240309_140507.html'' \<mapsto> ''abcde''],
       made_dirs = [], http_requests = [?U]\<rparr>,
      Return True)"
    by (simp only: resolve_and_save_def name sum.case)
       (simp add: save_response_def os_path_join_def startswith_def
          endswith_def os_path_exists_def unique_save_path_free print_def handle_exceptions_def
          sample_env_def sample_response_def Let_def)
  from only_y_continues [OF u g s c, of "sample_world [Line ''yes'']" "''yes''" "[]" "''Fetched_Images''"]
       only_y_continues [OF u g s c, of "sample_world [Line ''Y'']" "''Y''" "[]" "''Fetched_Images''"]
       u s c save
  show ?thesis by (simp add: sample_world_def ct)
qed


section \<open>Facts about \<^verbatim>\<open>split\<close> and \<^verbatim>\<open>in\<close>\<close>

lemma split_aux_skip: "split_aux sep (length xs) cur (xs @ ys) = split_aux sep 0 cur ys"
  by (induction xs) simp_all

lemma split_aux_none: "\<not> contains sep s \<Longrightarrow> split_aux sep 0 cur s = [rev cur @ s]"
  by (induction s arbitrary: cur) simp_all

lemma split_aux_nonempty: "split_aux sep k cur s \<noteq> []"
  by (induction sep k cur s rule: split_aux.induct) simp_all

lemma startswith_self: "startswith (sep @ tail) sep"
  by (simp add: startswith_def)

lemma split_aux_last:
  assumes "a \<notin> set sep'" and "\<not> contains (a # sep') tail"
  shows "k \<le> length pre \<Longrightarrow> last (split_aux (a # sep') k cur (pre @ (a # sep') @ tail)) = tail"
proof (induction pre arbitrary: k cur)
  case Nil
  then have "k = 0" by simp
  moreover have "startswith (a # sep' @ tail) (a # sep')"
    using startswith_self [of "a # sep'" tail] by simp
  ultimately show ?case
    using split_aux_skip [of "a # sep'" sep' "[]" tail] split_aux_none [OF assms(2), of "[]"]
    by simp
next
  case (Cons c pre)
  show ?case
  proof (cases k)
    case (Suc k')
    with Cons show ?thesis by simp
  next
    case 0
    show ?thesis
    proof (cases "startswith (c # pre @ (a # sep') @ tail) (a # sep')")
      case False
      with 0 Cons.IH [of 0 "c # cur"] show ?thesis by simp
    next
      case True
      then have t: "take (length sep') (pre @ a # sep' @ tail) = sep'"
        by (simp add: startswith_def)
      have "length sep' \<le> length pre"
      proof (rule ccontr)
        assume "\<not> length sep' \<le> length pre"
        then have lt: "length pre < length sep'" by simp
        then have "sep' ! length pre = take (length sep') (pre @ a # sep' @ tail) ! length pre"
          by (simp only: t)
        also have "\<dots> = (pre @ a # sep' @ tail) ! length pre"
          using lt by (simp only: nth_take)
        also have "\<dots> = a" by (simp add: nth_append)
        finally have "a \<in> set sep'" using lt nth_mem by metis
        with assms(1) show False by simp
      qed
      with True 0 Cons.IH [of "length sep'" "[]"] split_aux_nonempty
      show ?thesis by simp
    qed
  qed
qed

lemma split_last:
  "a \<notin> set sep' \<Longrightarrow> \<not> contains (a # sep') tail \<Longrightarrow>
   last (split (pre @ (a # sep') @ tail) (a # sep')) = tail"
  by (simp only: split_def) (rule split_aux_last, simp_all)


lemma contains_char: "contains [c] s \<longleftrightarrow> c \<in> set s"
  by (induction s) (auto simp: startswith_def)

lemma lower_content_disposition: "lower ''content-disposition'' = ''content-disposition''"
  by (simp add: lower_def lower_char_def)

lemma lower_content_type: "lower ''content-type'' = ''content-type''"
  by (simp add: lower_def lower_char_def)









section \<open>Facts about the timestamp and the last path segment\<close>

lemma isdigit_digit: "(n::nat) < 10 \<Longrightarrow> isdigit (char_of (48 + n))"
  by (simp add: isdigit_def)

lemma str_nat_digits: "c \<in> set (str_nat n) \<Longrightarrow> isdigit c"
proof (induction n arbitrary: c rule: str_nat.induct)
  case (1 n)
  show ?case
  proof (cases "n < 10")
    case True
    with "1.prems" show ?thesis by (simp add: str_nat_digit isdigit_digit)
  next
    case False
    have "str_nat n = str_nat (n div 10) @ [char_of (48 + n mod 10)]"
      using False by (subst str_nat.simps) simp
    with "1.prems" "1.IH" [OF False] isdigit_digit [of "n mod 10"] show ?thesis by auto
  qed
qed

lemma str_nat_length_step: "10 \<le> n \<Longrightarrow> length (str_nat n) = Suc (length (str_nat (n div 10)))"
  by (subst str_nat.simps) simp

lemma str_nat_length1: "n < 10 \<Longrightarrow> length (str_nat n) = 1"
  by (simp add: str_nat_digit)

lemma str_nat_length2: "10 \<le> n \<Longrightarrow> n < 100 \<Longrightarrow> length (str_nat n) = 2"
  by (simp add: str_nat_length_step str_nat_length1)

lemma str_nat_length4: "1000 \<le> n \<Longrightarrow> n \<le> 9999 \<Longrightarrow> length (str_nat n) = 4"
proof -
  assume a: "1000 \<le> n" "n \<le> 9999"
  then have "10 \<le> n" "10 \<le> n div 10" "10 \<le> n div 10 div 10" "n div 10 div 10 div 10 < 10"
    by simp_all
  then show ?thesis by (simp only: str_nat_length_step str_nat_length1)
qed

lemma two_digits_length: "n < 100 \<Longrightarrow> length (two_digits n) = 2"
  by (simp add: two_digits_def str_nat_length1 str_nat_length2)

lemma two_digits_digits: "c \<in> set (two_digits n) \<Longrightarrow> isdigit c"
  by (auto simp: two_digits_def isdigit_def dest: str_nat_digits split: if_splits)

lemma strftime_chars: "c \<in> set (strftime d) \<Longrightarrow> isdigit c \<or> c = CHR ''_''"
  by (auto simp: strftime_def dest: str_nat_digits two_digits_digits)

lemma strftime_no_dot: "CHR ''.'' \<notin> set (strftime d)"
  using strftime_chars [of "CHR ''.''" d] by (auto simp: isdigit_def)

lemma strftime_format:
  assumes "valid_datetime d" and "1000 \<le> year d"
  shows "\<exists>date time. strftime d = date @ ''_'' @ time \<and> length date = 8 \<and> length time = 6 \<and>
           list_all isdigit date \<and> list_all isdigit time"
proof (intro exI conjI)
  let ?date = "str_nat (year d) @ two_digits (month d) @ two_digits (day d)"
  let ?time = "two_digits (hour d) @ two_digits (minute d) @ two_digits (second d)"
  show "strftime d = ?date @ ''_'' @ ?time" by (simp add: strftime_def)
  show "length ?date = 8"
    using assms by (simp add: valid_datetime_def str_nat_length4 two_digits_length)
  show "length ?time = 6"
    using assms by (simp add: valid_datetime_def two_digits_length)
  show "list_all isdigit ?date"
    by (auto simp: list_all_iff dest: str_nat_digits two_digits_digits)
  show "list_all isdigit ?time"
    by (auto simp: list_all_iff dest: two_digits_digits)
qed

lemma last_segment:
  "CHR ''/'' \<notin> set seg \<Longrightarrow> last (split (pre @ ''/'' @ seg) ''/'') = seg"
  using split_last [of "CHR ''/''" "[]" seg pre] by (simp add: contains_char)

lemma extract_filename_returns:
  "urlparse env url = Inr parsed \<Longrightarrow> \<exists>name. extract_filename env url = Inr name"
  by (simp add: extract_filename_def Let_def)

lemma candidate_filename_returns:
  "urlparse env url = Inr parsed \<Longrightarrow>
   \<exists>candidate. candidate_filename env url response content_type = Inr candidate"
  by (auto simp: candidate_filename_def Let_def split: option.splits
           dest!: extract_filename_returns)


text \<open>
  C7, as stated, fails: line 31 takes a segment only from a path that contains a slash.
  The URL \<^verbatim>\<open>photo.jpg\<close> has the decoded path \<^verbatim>\<open>photo.jpg\<close>, whose one segment contains a
  dot, and \<^verbatim>\<open>extract_filename\<close> returns a generated name for it.
\<close>

theorem extract_filename_needs_a_slash:
  "urlparse (sample_env (\<lambda>url. Inl (Exc ConnectionError []))) ''photo.jpg'' =
     Inr \<lparr>netloc = [], path = ''photo.jpg''\<rparr> \<and>
   unquote (sample_env (\<lambda>url. Inl (Exc ConnectionError []))) ''photo.jpg'' = ''photo.jpg'' \<and>
   split ''photo.jpg'' ''/'' = [''photo.jpg''] \<and>
   CHR ''.'' \<in> set ''photo.jpg'' \<and>
   extract_filename (sample_env (\<lambda>url. Inl (Exc ConnectionError []))) ''photo.jpg'' =
     Inr ''image_20240309_140507.jpg''"
  by (simp add: sample_env_def sample_urlparse_def startswith_def split_def
        extract_filename_def generated_name_def sample_strftime)


text \<open>
  C7, amended. Let \<^verbatim>\<open>urlparse\<close> accept the URL, and let the current local time be a
  \<^verbatim>\<open>datetime\<close> of a year from 1000 on. When the decoded path contains a slash and the
  segment after its last slash contains a dot, \<^verbatim>\<open>extract_filename\<close> returns that segment.
  For every other URL it returns \<^verbatim>\<open>image_\<close>, the timestamp and \<^verbatim>\<open>.jpg\<close>, the timestamp being
  made of the 8 digits of the date, an underscore and the 6 digits of the time (14 digits).
\<close>

theorem extract_filename_of_decoded_path:
  assumes "urlparse env url = Inr parsed" and "valid_datetime (now env)"
    and "1000 \<le> year (now env)"
  shows "(\<forall>pre seg. unquote env (path parsed) = pre @ ''/'' @ seg \<and> CHR ''/'' \<notin> set seg \<and>
            CHR ''.'' \<in> set seg \<longrightarrow> extract_filename env url = Inr seg) \<and>
         ((\<nexists>pre seg. unquote env (path parsed) = pre @ ''/'' @ seg \<and> CHR ''/'' \<notin> set seg \<and>
            CHR ''.'' \<in> set seg) \<longrightarrow>
          extract_filename env url = Inr (''image_'' @ strftime (now env) @ ''.jpg'')) \<and>
         (\<exists>date time. strftime (now env) = date @ ''_'' @ time \<and> length date = 8 \<and>
            length time = 6 \<and> list_all isdigit date \<and> list_all isdigit time)"
proof (intro conjI allI impI)
  fix pre seg
  assume a: "unquote env (path parsed) = pre @ ''/'' @ seg \<and> CHR ''/'' \<notin> set seg \<and>
            CHR ''.'' \<in> set seg"
  then have "last (split (unquote env (path parsed)) ''/'') = seg"
    using last_segment [of seg pre] by simp
  moreover from a have "seg \<noteq> []" by auto
  ultimately show "extract_filename env url = Inr seg"
    using a assms(1) by (simp add: extract_filename_def contains_char)
next
  assume n: "\<nexists>pre seg. unquote env (path parsed) = pre @ ''/'' @ seg \<and> CHR ''/'' \<notin> set seg \<and>
            CHR ''.'' \<in> set seg"
  let ?path = "unquote env (path parsed)"
  have "\<not> (CHR ''.'' \<in> set (last (split ?path ''/'')))" if s: "CHR ''/'' \<in> set ?path"
  proof -
    from split_list_last [OF s] obtain pre seg
      where p: "?path = pre @ CHR ''/'' # seg" and f: "CHR ''/'' \<notin> set seg" by blast
    then have "last (split ?path ''/'') = seg"
      using last_segment [of seg pre] by simp
    with n p f show ?thesis by auto
  qed
  then show "extract_filename env url = Inr (''image_'' @ strftime (now env) @ ''.jpg'')"
    using assms(1) by (auto simp: extract_filename_def contains_char generated_name_def Let_def)
next
  show "\<exists>date time. strftime (now env) = date @ ''_'' @ time \<and> length date = 8 \<and>
            length time = 6 \<and> list_all isdigit date \<and> list_all isdigit time"
    using assms(2,3) by (rule strftime_format)
qed


theorem extract_filename_of_decoded_path_witness:
  "urlparse (sample_env (\<lambda>url. Inl (Exc ConnectionError []))) ''http://example.com/a/cat.v2.png'' =
     Inr \<lparr>netloc = ''example.com'', path = ''/a/cat.v2.png''\<rparr> \<and>
   valid_datetime (now (sample_env (\<lambda>url. Inl (Exc ConnectionError [])))) \<and>
   1000 \<le> year (now (sample_env (\<lambda>url. Inl (Exc ConnectionError [])))) \<and>
   unquote (sample_env (\<lambda>url. Inl (Exc ConnectionError []))) ''/a/cat.v2.png'' =
     ''/a'' @ ''/'' @ ''cat.v2.png'' \<and>
   CHR ''/'' \<notin> set ''cat.v2.png'' \<and> CHR ''.'' \<in> set ''cat.v2.png'' \<and>
   extract_filename (sample_env (\<lambda>url. Inl (Exc ConnectionError [])))
     ''http://example.com/a/cat.v2.png'' = Inr ''cat.v2.png'' \<and>
   extract_filename (sample_env (\<lambda>url. Inl (Exc ConnectionError [])))
     ''http://example.com/gallery'' = Inr ''image_20240309_140507.jpg''"
proof -
  let ?E = "sample_env (\<lambda>url. Inl (Exc ConnectionError []))"
  have u: "urlparse ?E ''http://example.com/a/cat.v2.png'' =
     Inr \<lparr>netloc = ''example.com'', path = ''/a/cat.v2.png''\<rparr>"
    by (simp add: sample_env_def sample_urlparse_def startswith_def)
  have v: "valid_datetime (now ?E)"
    by (simp add: sample_env_def sample_now_def valid_datetime_def)
  have y: "1000 \<le> year (now ?E)"
    by (simp add: sample_env_def sample_now_def)
  have q: "unquote ?E (path \<lparr>netloc = ''example.com'', path = ''/a/cat.v2.png''\<rparr>) =
     ''/a'' @ ''/'' @ ''cat.v2.png''"
    by (simp add: sample_env_def)
  have s: "CHR ''/'' \<notin> set ''cat.v2.png''" and d: "CHR ''.'' \<in> set ''cat.v2.png''"
    by simp_all
  from extract_filename_of_decoded_path [OF u v y] q s d
  have r: "extract_filename ?E ''http://example.com/a/cat.v2.png'' = Inr ''cat.v2.png''"
    by blast
  have g: "extract_filename ?E ''http://example.com/gallery'' = Inr ''image_20240309_140507.jpg''"
    by (simp add: sample_env_def sample_urlparse_def startswith_def split_def
          extract_filename_def generated_name_def sample_strftime)
  have q': "unquote ?E ''/a/cat.v2.png'' = ''/a'' @ ''/'' @ ''cat.v2.png''"
    by (simp add: sample_env_def)
  from u v y q' s d r g show ?thesis by blast
qed


text \<open>
  C8. For every URL string, response and content type: either \<^verbatim>\<open>urlparse\<close> rejects the URL,
  and then line 53 has raised before anything else and lines 69 to 88 are not run; or
  lines 69 to 88 fail at no step: the candidate name of lines 70 to 83 exists, and the
  resolved filename exists and is not empty; it is the sanitized candidate when that is
  not empty, and otherwise \<^verbatim>\<open>image_\<close> followed by the timestamp, a name with no dot in it.
\<close>

theorem resolve_filename_total:
  "(\<forall>e. urlparse env url = Inl e \<longrightarrow> download_try env url save_directory w = (w, Raise e)) \<and>
   (\<forall>parsed. urlparse env url = Inr parsed \<longrightarrow>
      (\<exists>candidate filename.
         candidate_filename env url response content_type = Inr candidate \<and>
         resolve_filename env url response content_type = Inr filename \<and>
         filename \<noteq> [] \<and>
         (sanitize candidate \<noteq> [] \<longrightarrow> filename = sanitize candidate) \<and>
         (sanitize candidate = [] \<longrightarrow>
            filename = ''image_'' @ strftime (now env) \<and> CHR ''.'' \<notin> set filename)))"
proof (intro conjI allI impI)
  fix e assume "urlparse env url = Inl e"
  then show "download_try env url save_directory w = (w, Raise e)"
    by (simp add: download_try_def)
next
  fix parsed assume u: "urlparse env url = Inr parsed"
  obtain candidate where c: "candidate_filename env url response content_type = Inr candidate"
    using candidate_filename_returns [OF u] by blast
  show "\<exists>candidate filename.
         candidate_filename env url response content_type = Inr candidate \<and>
         resolve_filename env url response content_type = Inr filename \<and>
         filename \<noteq> [] \<and>
         (sanitize candidate \<noteq> [] \<longrightarrow> filename = sanitize candidate) \<and>
         (sanitize candidate = [] \<longrightarrow>
            filename = ''image_'' @ strftime (now env) \<and> CHR ''.'' \<notin> set filename)"
    using c strftime_no_dot [of "now env"]
    by (auto simp: resolve_filename_def Let_def)
qed


theorem resolve_filename_total_witness:
  "urlparse (sample_env (\<lambda>url. Inl (Exc ConnectionError []))) ''http://example.com/a.png'' =
     Inr \<lparr>netloc = ''example.com'', path = ''/a.png''\<rparr> \<and>
   candidate_filename (sample_env (\<lambda>url. Inl (Exc ConnectionError []))) ''http://example.com/a.png''
     (sample_response [''content-disposition'' \<mapsto> ''attachment; filename=???''])
     ''image/png'' = Inr ''???'' \<and>
   sanitize ''???'' = [] \<and>
   resolve_filename (sample_env (\<lambda>url. Inl (Exc ConnectionError []))) ''http://example.com/a.png''
     (sample_response [''content-disposition'' \<mapsto> ''attachment; filename=???''])
     ''image/png'' = Inr ''image_20240309_140507'' \<and>
   urlparse ((sample_env (\<lambda>url. Inl (Exc ConnectionError [])))
       \<lparr>urlparse := (\<lambda>url. Inl (Exc ValueError ''Invalid IPv6 URL''))\<rparr>) ''http://['' =
     Inl (Exc ValueError ''Invalid IPv6 URL'') \<and>
   download_try ((sample_env (\<lambda>url. Inl (Exc ConnectionError [])))
       \<lparr>urlparse := (\<lambda>url. Inl (Exc ValueError ''Invalid IPv6 URL''))\<rparr>) ''http://[''
       ''Fetched_Images'' (sample_world []) =
     (sample_world [], Raise (Exc ValueError ''Invalid IPv6 URL''))"
proof -
  let ?E = "sample_env (\<lambda>url. Inl (Exc ConnectionError []))"
  let ?R = "sample_response [''content-disposition'' \<mapsto> ''attachment; filename=???'']"
  let ?E' = "?E\<lparr>urlparse := (\<lambda>url. Inl (Exc ValueError ''Invalid IPv6 URL''))\<rparr>"
  have u: "urlparse ?E ''http://example.com/a.png'' =
     Inr \<lparr>netloc = ''example.com'', path = ''/a.png''\<rparr>"
    by (simp add: sample_env_def sample_urlparse_def startswith_def)
  have c: "candidate_filename ?E ''http://example.com/a.png'' ?R ''image/png'' = Inr ''???''"
    by (simp add: candidate_filename_def headers_get_def lower_content_disposition
          sample_response_def startswith_def split_def strip_chars_def)
  have s: "sanitize ''???'' = []"
    by (simp add: sanitize_def rstrip_def isalnum_def)
  have n: "now ?E = sample_now" by (simp add: sample_env_def)
  note T = resolve_filename_total [where env = ?E and url = "''http://example.com/a.png''"
      and response = ?R and content_type = "''image/png''", THEN conjunct2, rule_format, OF u]
  from T c s
  have "resolve_filename ?E ''http://example.com/a.png'' ?R ''image/png'' =
          Inr (''image_'' @ strftime (now ?E))"
    by auto
  then have r: "resolve_filename ?E ''http://example.com/a.png'' ?R ''image/png'' =
          Inr ''image_20240309_140507''"
    by (simp add: n sample_strftime)
  have u': "urlparse ?E' ''http://['' = Inl (Exc ValueError ''Invalid IPv6 URL'')"
    by simp
  note T' = resolve_filename_total [where env = ?E' and url = "''http://[''"
      and save_directory = "''Fetched_Images''" and w = "sample_world []",
      THEN conjunct1, rule_format, OF u']
  from u c s r u' T' show ?thesis by (intro conjI)
qed

text \<open>
  C5. The claim has the extension of the candidate replaced by the one that the content
  type implies. Line 81 keeps \<^verbatim>\<open>filename.split('.')[0]\<close>, the part before the first dot, so
  a name with more than one dot loses everything between its first dot and its extension:
  \<^verbatim>\<open>my.photo.txt\<close> served as \<^verbatim>\<open>image/png\<close> becomes \<^verbatim>\<open>my.png\<close>. The example of the claim, a
  name with one dot, comes out as the claim says.
\<close>

theorem multi_dot_name_loses_its_middle:
  "resolve_filename (sample_env get) ''http://example.com/my.photo.txt''
     (sample_response [''content-type'' \<mapsto> ''image/png'']) ''image/png'' = Inr ''my.png'' \<and>
   resolve_filename (sample_env get) ''http://example.com/photo.txt''
     (sample_response [''content-type'' \<mapsto> ''image/png'']) ''image/png'' = Inr ''photo.png''"
  by (simp add: resolve_filename_def candidate_filename_def extract_filename_def
        sample_env_def sample_urlparse_def sample_guess_extension_def sample_response_def
        headers_get_def lower_content_disposition startswith_def endswith_def split_def
        sanitize_def rstrip_def isalnum_def isspace_def Let_def)


section \<open>Facts about \<^verbatim>\<open>main\<close>\<close>

lemma isspace_lower: "isspace c \<Longrightarrow> lower_char c = c"
  by (auto simp: isspace_def lower_char_def Let_def)

lemma strip_no_space: "\<forall>c \<in> set s. \<not> isspace c \<Longrightarrow> strip s = s"
proof -
  assume a: "\<forall>c \<in> set s. \<not> isspace c"
  have l: "lstrip s = s" using a by (cases s) (simp_all add: lstrip_def)
  have "dropWhile isspace (rev s) = rev s"
    using a by (cases "rev s") (simp, metis dropWhile.simps(2) list.set_intros(1) set_rev)
  then have "rstrip s = s" by (simp add: rstrip_def)
  with l show ?thesis by (simp add: strip_def)
qed

lemma quit_word_no_space:
  assumes "lower line \<in> set [''quit'', ''exit'', ''q'']"
  shows "\<forall>c \<in> set line. \<not> isspace c"
proof
  fix c assume c: "c \<in> set line"
  then have "lower_char c \<in> set (lower line)" by (simp add: lower_def)
  with assms have m: "lower_char c \<in> set ''quitex''" by auto
  show "\<not> isspace c"
  proof
    assume "isspace c"
    with m isspace_lower [of c] have "c \<in> set ''quitex''" by simp
    with \<open>isspace c\<close> show False by (auto simp: isspace_def)
  qed
qed

lemma quit_word_strip:
  "lower line \<in> set [''quit'', ''exit'', ''q''] \<Longrightarrow> strip line = line"
  by (rule strip_no_space) (rule quit_word_no_space)

lemma main_loop_line:
  "stdin w = Line line # rest \<Longrightarrow>
   main_loop env d w =
     (let url = strip line;
          w1 = \<lparr>stdin = rest, stdout = stdout w @ [Separator, Prompt_URL], fs = fs w,
                made_dirs = made_dirs w, http_requests = http_requests w\<rparr>
      in if lower url \<in> set [''quit'', ''exit'', ''q'']
         then (print Thank_you w1, Return ())
         else if url = []
         then main_loop env d (print Please_enter_valid_URL w1)
         else if \<not> (startswith url ''http://'' \<or> startswith url ''https://'')
         then main_loop env d (print URL_must_start_with w1)
         else (case download_image env url d w1 of
                 (w, Return r) \<Rightarrow> main_loop env d w
               | (w, Raise e) \<Rightarrow>
                   if isinstance e KeyboardInterrupt
                   then (print Goodbye w, Return ())
                   else if isinstance e Exception
                   then main_loop env d (print (Unexpected_error_in_main_loop (exc_str e)) w)
                   else (w, Raise e)
               | (w, Blocked) \<Rightarrow> (w, Blocked)
               | (w, Diverge) \<Rightarrow> (w, Diverge)))"
  by (subst main_loop.simps, cases w) (simp add: py_input_def print_def Let_def)

lemma main_loop_typed:
  "main_loop env d (w\<lparr>stdin := Line line # rest\<rparr>) =
     (let url = strip line;
          w1 = \<lparr>stdin = rest, stdout = stdout w @ [Separator, Prompt_URL], fs = fs w,
                made_dirs = made_dirs w, http_requests = http_requests w\<rparr>
      in if lower url \<in> set [''quit'', ''exit'', ''q'']
         then (print Thank_you w1, Return ())
         else if url = []
         then main_loop env d (print Please_enter_valid_URL w1)
         else if \<not> (startswith url ''http://'' \<or> startswith url ''https://'')
         then main_loop env d (print URL_must_start_with w1)
         else (case download_image env url d w1 of
                 (w, Return r) \<Rightarrow> main_loop env d w
               | (w, Raise e) \<Rightarrow>
                   if isinstance e KeyboardInterrupt
                   then (print Goodbye w, Return ())
                   else if isinstance e Exception
                   then main_loop env d (print (Unexpected_error_in_main_loop (exc_str e)) w)
                   else (w, Raise e)
               | (w, Blocked) \<Rightarrow> (w, Blocked)
               | (w, Diverge) \<Rightarrow> (w, Diverge)))"
  by (subst main_loop_line [of _ line rest]) simp_all

lemma http_requests_print: "http_requests (print m w) = http_requests w"
  by (simp add: print_def)

lemma py_input_requests: "py_input p w = (w', r) \<Longrightarrow> http_requests w' = http_requests w"
  by (auto simp: py_input_def print_def Let_def split: list.splits input_event.splits)

lemma save_response_requests:
  "save_response env d f r w = (w', res) \<Longrightarrow> http_requests w' = http_requests w"
  by (auto simp: save_response_def Let_def print_def split: option.splits prod.splits)

lemma resolve_and_save_requests:
  "resolve_and_save env url d r ct w = (w', res) \<Longrightarrow> http_requests w' = http_requests w"
  by (auto simp: resolve_and_save_def split: sum.splits dest: save_response_requests)

lemma download_try_requests:
  "download_try env url d w = (w', res) \<Longrightarrow>
   http_requests w' = http_requests w \<or> http_requests w' = http_requests w @ [url]"
  by (auto simp: download_try_def Let_def print_def
           split: sum.splits option.splits if_splits prod.splits outcome.splits
           dest!: py_input_requests resolve_and_save_requests)

lemma download_image_requests:
  "download_image env url d w = (w', res) \<Longrightarrow>
   http_requests w' = http_requests w \<or> http_requests w' = http_requests w @ [url]"
  by (auto simp: download_image_def handle_exceptions_def print_def
           split: prod.splits outcome.splits option.splits
           dest!: download_try_requests)

lemma main_loop_requests:
  "\<forall>u \<in> set (http_requests w). startswith u ''http://'' \<or> startswith u ''https://'' \<Longrightarrow>
   \<forall>u \<in> set (http_requests (fst (main_loop env d w))).
      startswith u ''http://'' \<or> startswith u ''https://''"
proof (induction env d w rule: main_loop.induct)
  case (1 env d w)
  obtain w1 r where p: "py_input Prompt_URL (print Separator w) = (w1, r)"
    by (cases "py_input Prompt_URL (print Separator w)")
  then have q1: "http_requests w1 = http_requests w"
    by (auto dest!: py_input_requests simp: http_requests_print)
  with "1.prems" have ok1: "\<forall>u \<in> set (http_requests w1). startswith u ''http://'' \<or> startswith u ''https://''"
    by simp
  show ?case
  proof (cases r)
    case (Return line)
    let ?url = "strip line"
    show ?thesis
    proof (cases "lower ?url \<in> set [''quit'', ''exit'', ''q'']")
      case True
      with p Return ok1 show ?thesis
        by (subst main_loop.simps) (simp add: Let_def http_requests_print)
    next
      case nq: False
      show ?thesis
      proof (cases "?url = []")
        case True
        from "1.IH"(1) [OF refl p [symmetric] Return refl nq True] ok1
        have "\<forall>u \<in> set (http_requests (fst (main_loop env d (print Please_enter_valid_URL w1)))).
          startswith u ''http://'' \<or> startswith u ''https://''"
          by (simp add: http_requests_print)
        with p Return nq True show ?thesis
          by (subst main_loop.simps) (simp add: Let_def)
      next
        case ne: False
        show ?thesis
        proof (cases "startswith ?url ''http://'' \<or> startswith ?url ''https://''")
          case False
          from "1.IH"(2) [OF refl p [symmetric] Return refl nq ne False] ok1
          have "\<forall>u \<in> set (http_requests (fst (main_loop env d (print URL_must_start_with w1)))).
            startswith u ''http://'' \<or> startswith u ''https://''"
            by (simp add: http_requests_print)
          with p Return nq ne False show ?thesis
            by (subst main_loop.simps) (simp add: Let_def)
        next
          case http: True
          obtain w2 r2 where dl: "download_image env ?url d w1 = (w2, r2)"
            by (cases "download_image env ?url d w1")
          from download_image_requests [OF dl] ok1 http
          have ok2: "\<forall>u \<in> set (http_requests w2). startswith u ''http://'' \<or> startswith u ''https://''"
            by auto
          have nh: "\<not> \<not> (startswith ?url ''http://'' \<or> startswith ?url ''https://'')"
            using http by simp
          show ?thesis
          proof (cases r2)
            case (Return b)
            from "1.IH"(3) [OF refl p [symmetric] \<open>r = Return line\<close> refl nq ne nh dl [symmetric] Return] ok2
            have "\<forall>u \<in> set (http_requests (fst (main_loop env d w2))).
              startswith u ''http://'' \<or> startswith u ''https://''" .
            with p \<open>r = Return line\<close> nq ne http dl Return show ?thesis
              by (subst main_loop.simps) (simp add: Let_def)
          next
            case (Raise e)
            show ?thesis
            proof (cases "isinstance e KeyboardInterrupt")
              case True
              with p \<open>r = Return line\<close> nq ne http dl Raise ok2 show ?thesis
                by (subst main_loop.simps) (simp add: Let_def http_requests_print)
            next
              case nk: False
              show ?thesis
              proof (cases "isinstance e Exception")
                case True
                from "1.IH"(4) [OF refl p [symmetric] \<open>r = Return line\<close> refl nq ne nh dl [symmetric] Raise nk True] ok2
                have "\<forall>u \<in> set (http_requests (fst (main_loop env d
                    (print (Unexpected_error_in_main_loop (exc_str e)) w2)))).
                  startswith u ''http://'' \<or> startswith u ''https://''"
                  by (simp add: http_requests_print)
                with p \<open>r = Return line\<close> nq ne http dl Raise nk True show ?thesis
                  by (subst main_loop.simps) (simp add: Let_def)
              next
                case False
                with p \<open>r = Return line\<close> nq ne http dl Raise nk ok2 show ?thesis
                  by (subst main_loop.simps) (simp add: Let_def)
              qed
            qed
          next
            case Blocked
            with p \<open>r = Return line\<close> nq ne http dl ok2 show ?thesis
              by (subst main_loop.simps) (simp add: Let_def)
          next
            case Diverge
            with p \<open>r = Return line\<close> nq ne http dl ok2 show ?thesis
              by (subst main_loop.simps) (simp add: Let_def)
          qed
        qed
      qed
    qed
  next
    case (Raise e)
    show ?thesis
    proof (cases "isinstance e KeyboardInterrupt")
      case True
      with p Raise ok1 show ?thesis
        by (subst main_loop.simps) (simp add: Let_def http_requests_print)
    next
      case nk: False
      show ?thesis
      proof (cases "isinstance e Exception")
        case True
        from "1.IH"(5) [OF refl p [symmetric] Raise nk True] ok1
        have "\<forall>u \<in> set (http_requests (fst (main_loop env d
            (print (Unexpected_error_in_main_loop (exc_str e)) w1)))).
          startswith u ''http://'' \<or> startswith u ''https://''"
          by (simp add: http_requests_print)
        with p Raise nk True show ?thesis
          by (subst main_loop.simps) (simp add: Let_def)
      next
        case False
        with p Raise nk ok1 show ?thesis
          by (subst main_loop.simps) (simp add: Let_def)
      qed
    qed
  next
    case Blocked
    with p ok1 show ?thesis
      by (subst main_loop.simps) (simp add: Let_def)
  next
    case Diverge
    with p ok1 show ?thesis
      by (subst main_loop.simps) (simp add: Let_def)
  qed
qed


text \<open>
  C9. A line whose stripped, lower-case form is \<^verbatim>\<open>quit\<close>, \<^verbatim>\<open>exit\<close> or \<^verbatim>\<open>q\<close> (so every line
  equal to one of them up to case) ends the loop with the closing message and nothing
  else; typed at the first prompt, the whole program has created the directory, sent no
  request and written no file. A line that is empty once stripped, or that starts with
  neither \<^verbatim>\<open>http://\<close> nor \<^verbatim>\<open>https://\<close>, only prints its warning, and the loop goes on with the
  next prompt, \<^verbatim>\<open>download_image\<close> not being called; and no run of the loop sends a request for
  a URL that starts with neither.
\<close>

theorem main_loop_quit_and_reject:
  "(lower (strip line) \<in> set [''quit'', ''exit'', ''q''] \<longrightarrow>
      main_loop env d (w\<lparr>stdin := Line line # rest\<rparr>) =
        (\<lparr>stdin = rest, stdout = stdout w @ [Separator, Prompt_URL, Thank_you], fs = fs w,
          made_dirs = made_dirs w, http_requests = http_requests w\<rparr>, Return ())) \<and>
   (lower line \<in> set [''quit'', ''exit'', ''q''] \<longrightarrow>
      lower (strip line) \<in> set [''quit'', ''exit'', ''q'']) \<and>
   (makedirs env ''Fetched_Images'' = None \<and>
    lower (strip line) \<in> set [''quit'', ''exit'', ''q''] \<longrightarrow>
      main env (w\<lparr>stdin := Line line # rest\<rparr>) =
        (\<lparr>stdin = rest,
          stdout = stdout w @
            [Rule50, Title, Rule50, Community, Respect, Sharing, Practicality, Rule50,
             Directory_ready ''Fetched_Images'', Separator, Prompt_URL, Thank_you],
          fs = fs w, made_dirs = made_dirs w @ [''Fetched_Images''],
          http_requests = http_requests w\<rparr>, Return ())) \<and>
   (strip line = [] \<longrightarrow>
      main_loop env d (w\<lparr>stdin := Line line # rest\<rparr>) =
        main_loop env d
          \<lparr>stdin = rest, stdout = stdout w @ [Separator, Prompt_URL, Please_enter_valid_URL],
           fs = fs w, made_dirs = made_dirs w, http_requests = http_requests w\<rparr>) \<and>
   (lower (strip line) \<notin> set [''quit'', ''exit'', ''q''] \<and> strip line \<noteq> [] \<and>
    \<not> startswith (strip line) ''http://'' \<and> \<not> startswith (strip line) ''https://'' \<longrightarrow>
      main_loop env d (w\<lparr>stdin := Line line # rest\<rparr>) =
        main_loop env d
          \<lparr>stdin = rest, stdout = stdout w @ [Separator, Prompt_URL, URL_must_start_with],
           fs = fs w, made_dirs = made_dirs w, http_requests = http_requests w\<rparr>) \<and>
   ((\<forall>u \<in> set (http_requests w). startswith u ''http://'' \<or> startswith u ''https://'') \<longrightarrow>
      (\<forall>u \<in> set (http_requests (fst (main_loop env d w))).
         startswith u ''http://'' \<or> startswith u ''https://''))"
proof (intro conjI impI)
  assume "lower (strip line) \<in> set [''quit'', ''exit'', ''q'']"
  then show "main_loop env d (w\<lparr>stdin := Line line # rest\<rparr>) =
        (\<lparr>stdin = rest, stdout = stdout w @ [Separator, Prompt_URL, Thank_you], fs = fs w,
          made_dirs = made_dirs w, http_requests = http_requests w\<rparr>, Return ())"
    by (simp add: main_loop_typed print_def Let_def)
next
  assume "lower line \<in> set [''quit'', ''exit'', ''q'']"
  then show "lower (strip line) \<in> set [''quit'', ''exit'', ''q'']"
    by (simp only: quit_word_strip)
next
  assume a: "makedirs env ''Fetched_Images'' = None \<and>
    lower (strip line) \<in> set [''quit'', ''exit'', ''q'']"
  have "main env (w\<lparr>stdin := Line line # rest\<rparr>) =
     main_loop env ''Fetched_Images''
       (\<lparr>stdin = [], stdout = stdout w @
            [Rule50, Title, Rule50, Community, Respect, Sharing, Practicality, Rule50,
             Directory_ready ''Fetched_Images''],
          fs = fs w, made_dirs = made_dirs w @ [''Fetched_Images''],
          http_requests = http_requests w\<rparr>\<lparr>stdin := Line line # rest\<rparr>)"
    using a by (cases w) (simp add: main_def create_directory_def print_def Let_def)
  with a show "main env (w\<lparr>stdin := Line line # rest\<rparr>) =
        (\<lparr>stdin = rest,
          stdout = stdout w @
            [Rule50, Title, Rule50, Community, Respect, Sharing, Practicality, Rule50,
             Directory_ready ''Fetched_Images'', Separator, Prompt_URL, Thank_you],
          fs = fs w, made_dirs = made_dirs w @ [''Fetched_Images''],
          http_requests = http_requests w\<rparr>, Return ())"
    by (simp only: main_loop_typed) (simp add: print_def Let_def)
next
  assume "strip line = []"
  then show "main_loop env d (w\<lparr>stdin := Line line # rest\<rparr>) =
        main_loop env d
          \<lparr>stdin = rest, stdout = stdout w @ [Separator, Prompt_URL, Please_enter_valid_URL],
           fs = fs w, made_dirs = made_dirs w, http_requests = http_requests w\<rparr>"
    by (simp add: main_loop_typed print_def Let_def lower_def)
next
  assume "lower (strip line) \<notin> set [''quit'', ''exit'', ''q''] \<and> strip line \<noteq> [] \<and>
    \<not> startswith (strip line) ''http://'' \<and> \<not> startswith (strip line) ''https://''"
  then show "main_loop env d (w\<lparr>stdin := Line line # rest\<rparr>) =
        main_loop env d
          \<lparr>stdin = rest, stdout = stdout w @ [Separator, Prompt_URL, URL_must_start_with],
           fs = fs w, made_dirs = made_dirs w, http_requests = http_requests w\<rparr>"
    by (simp add: main_loop_typed print_def Let_def)
next
  assume "\<forall>u \<in> set (http_requests w). startswith u ''http://'' \<or> startswith u ''https://''"
  then show "\<forall>u \<in> set (http_requests (fst (main_loop env d w))).
         startswith u ''http://'' \<or> startswith u ''https://''"
    by (rule main_loop_requests)
qed

theorem main_loop_quit_and_reject_witness:
  "lower (strip ''  Quit '') \<in> set [''quit'', ''exit'', ''q''] \<and>
   makedirs (sample_env (\<lambda>url. Inl (Exc ConnectionError []))) ''Fetched_Images'' = None \<and>
   main (sample_env (\<lambda>url. Inl (Exc ConnectionError [])))
       ((sample_world [])\<lparr>stdin := Line ''  Quit '' # [Line ''http://example.com/a.png'']\<rparr>) =
     (\<lparr>stdin = [Line ''http://example.com/a.png''],
       stdout = [Rule50, Title, Rule50, Community, Respect, Sharing, Practicality, Rule50,
                 Directory_ready ''Fetched_Images'', Separator, Prompt_URL, Thank_you],
       fs = Map.empty, made_dirs = [''Fetched_Images''], http_requests = []\<rparr>, Return ()) \<and>
   lower (strip ''not-a-url'') \<notin> set [''quit'', ''exit'', ''q''] \<and>
   strip ''not-a-url'' \<noteq> [] \<and>
   \<not> startswith (strip ''not-a-url'') ''http://'' \<and>
   \<not> startswith (strip ''not-a-url'') ''https://'' \<and>
   main_loop (sample_env (\<lambda>url. Inl (Exc ConnectionError []))) ''Fetched_Images''
       ((sample_world [])\<lparr>stdin := Line ''not-a-url'' # [Line ''q'']\<rparr>) =
     (\<lparr>stdin = [],
       stdout = [Separator, Prompt_URL, URL_must_start_with, Separator, Prompt_URL, Thank_you],
       fs = Map.empty, made_dirs = [], http_requests = []\<rparr>, Return ())"
proof -
  let ?E = "sample_env (\<lambda>url. Inl (Exc ConnectionError []))"
  let ?D = "''Fetched_Images''"
  have q1: "lower (strip ''  Quit '') \<in> set [''quit'', ''exit'', ''q'']"
    by (simp add: strip_def lstrip_def rstrip_def isspace_def lower_def lower_char_def
          char_of_eq_iff)
  have q2: "lower (strip ''q'') \<in> set [''quit'', ''exit'', ''q'']"
    by (simp add: strip_def lstrip_def rstrip_def isspace_def lower_def lower_char_def)
  have mk: "makedirs ?E ?D = None" by (simp add: sample_env_def)
  have s: "strip ''not-a-url'' = ''not-a-url''"
    by (simp add: strip_def lstrip_def rstrip_def isspace_def)
  have n1: "lower (strip ''not-a-url'') \<notin> set [''quit'', ''exit'', ''q'']"
    by (simp add: s lower_def)
  have n2: "strip ''not-a-url'' \<noteq> []" by (simp add: s)
  have n3: "\<not> startswith (strip ''not-a-url'') ''http://''"
    and n4: "\<not> startswith (strip ''not-a-url'') ''https://''"
    by (simp_all add: s startswith_def)
  note T = main_loop_quit_and_reject
  note T1 = T [where line = "''  Quit ''" and env = ?E and d = ?D and w = "sample_world []"
            and rest = "[Line ''http://example.com/a.png'']",
            THEN conjunct2, THEN conjunct2, THEN conjunct1, THEN mp, OF conjI [OF mk q1]]
  note T2 = T [where line = "''not-a-url''" and env = ?E and d = ?D and w = "sample_world []"
            and rest = "[Line ''q'']",
            THEN conjunct2, THEN conjunct2, THEN conjunct2, THEN conjunct2, THEN conjunct1,
            THEN mp, OF conjI [OF n1 conjI [OF n2 conjI [OF n3 n4]]]]
  note T3 = T [where line = "''q''" and env = ?E and d = ?D and rest = "[]"
            and w = "\<lparr>stdin = [], stdout = [Separator, Prompt_URL, URL_must_start_with],
                     fs = Map.empty, made_dirs = [], http_requests = []\<rparr>",
            THEN conjunct1, THEN mp, OF q2]
  from T1
  have a: "main ?E ((sample_world [])\<lparr>stdin := Line ''  Quit '' # [Line ''http://example.com/a.png'']\<rparr>) =
     (\<lparr>stdin = [Line ''http://example.com/a.png''],
       stdout = [Rule50, Title, Rule50, Community, Respect, Sharing, Practicality, Rule50,
                 Directory_ready ''Fetched_Images'', Separator, Prompt_URL, Thank_you],
       fs = Map.empty, made_dirs = [''Fetched_Images''], http_requests = []\<rparr>, Return ())"
    by (simp add: sample_world_def)
  from T2
  have b1: "main_loop ?E ?D ((sample_world [])\<lparr>stdin := Line ''not-a-url'' # [Line ''q'']\<rparr>) =
     main_loop ?E ?D
       \<lparr>stdin = [Line ''q''], stdout = [Separator, Prompt_URL, URL_must_start_with],
        fs = Map.empty, made_dirs = [], http_requests = []\<rparr>"
    by (simp add: sample_world_def)
  from T3
  have b2: "main_loop ?E ?D
       \<lparr>stdin = [Line ''q''], stdout = [Separator, Prompt_URL, URL_must_start_with],
        fs = Map.empty, made_dirs = [], http_requests = []\<rparr> =
     (\<lparr>stdin = [],
       stdout = [Separator, Prompt_URL, URL_must_start_with, Separator, Prompt_URL, Thank_you],
       fs = Map.empty, made_dirs = [], http_requests = []\<rparr>, Return ())"
    by simp
  from b1 b2 have b: "main_loop ?E ?D ((sample_world [])\<lparr>stdin := Line ''not-a-url'' # [Line ''q'']\<rparr>) =
     (\<lparr>stdin = [],
       stdout = [Separator, Prompt_URL, URL_must_start_with, Separator, Prompt_URL, Thank_you],
       fs = Map.empty, made_dirs = [], http_requests = []\<rparr>, Return ())"
    by (rule trans)
  from q1 mk a n1 n2 n3 n4 b show ?thesis by (intro conjI)
qed


end
